theory Spec2Isabelle
  imports Main "HOL-Library.Word" "HOL-Library.Sublist"
begin

section \<open>The blocklist wrapper of serverless-dns: data\<close>

text \<open>
  The embedding follows \<^verbatim>\<open>src/plugins/blocklist-wrapper/main.js\<close>. Logging calls
  (\<^verbatim>\<open>log.i\<close>, \<^verbatim>\<open>log.e\<close>, \<^verbatim>\<open>this.log\<close>) and the request id \<^verbatim>\<open>rxid\<close>, which only
  feeds them, have no effect on the state or on any result and are left out.
  JavaScript numbers that the code uses as integers (timestamps, durations, counts) are
  \<^typ>\<open>int\<close>.
\<close>

type_synonym bytes = "8 word list"

text \<open>A parsed JSON value (what \<^verbatim>\<open>res.json()\<close> yields for the file tags).\<close>

datatype json = JNull | JBool bool | JNum int | JStr string
  | JArr "json list" | JObj "(string \<times> json) list"

text \<open>
  A thrown JavaScript value. \<^verbatim>\<open>new Error(m)\<close> is \<open>Error m\<close>; the diagnostic text that
  reaches a response envelope is its message.
\<close>

datatype Error = Error (message: string)

text \<open>
  The \<^verbatim>\<open>Response\<close> object that the platform's \<^verbatim>\<open>fetch\<close> resolves to. The fields
  \<open>arrayBuffer\<close> and \<open>json\<close> hold the outcome of the method of that name.
  \<open>enumerable\<close> lists the own enumerable properties of the object, each with the JSON
  text of its value: they are all that \<^verbatim>\<open>JSON.stringify\<close> prints of an object. A
  \<^verbatim>\<open>Response\<close> of the Fetch standard has none (\<open>ok\<close>, \<open>status\<close> and the others are
  accessors of its prototype).
\<close>

record Response =
  ok :: bool
  status :: int
  enumerable :: "(string \<times> string) list"
  arrayBuffer :: "Error + bytes"
  json :: "Error + json"

text \<open>What \<^verbatim>\<open>fileFetch\<close> resolves to: an \<^verbatim>\<open>ArrayBuffer\<close> or a parsed JSON value.\<close>

datatype payload = Buffer bytes | Json json

text \<open>
  A settled promise: the time at which it settled, and either the value it was
  fulfilled with or the error it was rejected with. The time only orders rejections:
  \<^verbatim>\<open>Promise.all\<close> rejects with the rejection that happens first.
\<close>

type_synonym 'a promise = "nat \<times> (Error + 'a)"

text \<open>The basic config that \<^verbatim>\<open>downloadBuildBlocklist\<close> builds (lines 174 to 177).\<close>

record BasicConfig =
  nodecount :: int
  tdparts :: int

text \<open>
  The two objects that \<^verbatim>\<open>createBlocklistFilter\<close> of \<^verbatim>\<open>radixTrie.js\<close> returns as
  \<^verbatim>\<open>{t, ft}\<close>. Both are opaque here; a number names the object.
\<close>

datatype tags = Tags nat
datatype frozentrie = FrozenTrie nat

text \<open>
  The platform and the collaborators that one call of the wrapper meets: \<open>fetch url\<close> is
  the settled result of \<^verbatim>\<open>fetch(url, ...)\<close> (rejected, or resolved to a response), and
  \<open>createBlocklistFilter\<close> is the filter builder of \<^verbatim>\<open>radixTrie.js\<close>, which returns the
  pair \<^verbatim>\<open>{t, ft}\<close> or throws.
\<close>

record host =
  fetch :: "string \<Rightarrow> Response promise"
  createBlocklistFilter :: "payload \<Rightarrow> payload \<Rightarrow> payload \<Rightarrow> BasicConfig \<Rightarrow> Error + (tags \<times> frozentrie)"

section \<open>Strings that the platform formats\<close>

definition digit_char :: "nat \<Rightarrow> char" where
  "digit_char d = ''0123456789'' ! (d mod 10)"

text \<open>The decimal digits of a natural number, most significant first.\<close>

fun digits :: "nat \<Rightarrow> string" where
  "digits n = (if n < 10 then [digit_char n] else digits (n div 10) @ [digit_char (n mod 10)])"

text \<open>
  \<^verbatim>\<open>i.toLocaleString("en-US", {minimumIntegerDigits: 2, useGrouping: false})\<close> for an
  integer \<open>i\<close>: its decimal digits, padded with zeros on the left to two digits, never
  grouped, after a minus sign when \<open>i\<close> is negative.
\<close>

definition toLocaleString :: "int \<Rightarrow> string" where
  "toLocaleString i =
     (let ds = digits (nat \<bar>i\<bar>);
          padded = (if length ds < 2 then replicate (2 - length ds) CHR ''0'' @ ds else ds)
      in if i < 0 then CHR ''-'' # padded else padded)"

text \<open>The string that \<^verbatim>\<open>"..." + n\<close> appends for an integer \<open>n\<close>.\<close>

definition String_of :: "int \<Rightarrow> string" where
  "String_of i = (if i < 0 then CHR ''-'' # digits (nat (- i)) else digits (nat i))"

definition hex_char :: "nat \<Rightarrow> char" where
  "hex_char d = ''0123456789abcdef'' ! (d mod 16)"

text \<open>
  \<^verbatim>\<open>JSON.stringify\<close> of a string: the text between double quotes, where the double
  quote, the backslash and the control characters are escaped.
\<close>

definition escape_char :: "char \<Rightarrow> string" where
  "escape_char c =
     (if c = CHR 0x22 then [CHR 0x5C, CHR 0x22]
      else if c = CHR 0x5C then [CHR 0x5C, CHR 0x5C]
      else if c = CHR 0x08 then [CHR 0x5C, CHR ''b'']
      else if c = CHR 0x09 then [CHR 0x5C, CHR ''t'']
      else if c = CHR 0x0A then [CHR 0x5C, CHR ''n'']
      else if c = CHR 0x0C then [CHR 0x5C, CHR ''f'']
      else if c = CHR 0x0D then [CHR 0x5C, CHR ''r'']
      else if of_char c < (32::nat)
        then [CHR 0x5C, CHR ''u'', CHR ''0'', CHR ''0'',
              hex_char (of_char c div 16), hex_char (of_char c mod 16)]
      else [c])"

definition quoteJSONString :: "string \<Rightarrow> string" where
  "quoteJSONString s = [CHR 0x22] @ concat (map escape_char s) @ [CHR 0x22]"

text \<open>Joins strings with a comma between them.\<close>

fun commas :: "string list \<Rightarrow> string" where
  "commas [] = []"
| "commas [s] = s"
| "commas (s # r # rs) = s @ '','' @ commas (r # rs)"

text \<open>\<^verbatim>\<open>JSON.stringify\<close> of a response object: its own enumerable properties.\<close>

definition stringify_Response :: "Response \<Rightarrow> string" where
  "stringify_Response res =
     ''{'' @ commas (map (\<lambda>(k, v). quoteJSONString k @ '':'' @ v) (enumerable res)) @ ''}''"

text \<open>\<^verbatim>\<open>JSON.stringify([url, res, "fileFetch fail"])\<close> (line 222).\<close>

definition stringify_fail :: "string \<Rightarrow> Response \<Rightarrow> string" where
  "stringify_fail url res =
     ''['' @ commas [quoteJSONString url, stringify_Response res,
                     quoteJSONString ''fileFetch fail''] @ '']''"

section \<open>Fetching one resource and joining promises\<close>

text \<open>
  \<^verbatim>\<open>fileFetch(url, typ)\<close> (lines 212 to 230). The first component is the list of requests
  that the call sends with \<^verbatim>\<open>fetch\<close>, the second the promise it returns, settled. An
  unknown \<open>typ\<close> throws before anything is sent. The cache hint of line 218 is part of
  the request and has no effect here.
\<close>

definition fileFetch :: "host \<Rightarrow> string \<Rightarrow> string \<Rightarrow> string list \<times> payload promise" where
  "fileFetch h url typ =
     (if typ \<noteq> ''buffer'' \<and> typ \<noteq> ''json''
      then ([], (0, Inl (Error ''Unknown conversion type at fileFetch'')))
      else ([url],
        (case fetch h url of
           (at, Inl e) \<Rightarrow> (at, Inl e)
         | (at, Inr res) \<Rightarrow>
             if \<not> ok res then (at, Inl (Error (stringify_fail url res)))
             else if typ = ''buffer'' then (at, map_sum id Buffer (arrayBuffer res))
             else (at, map_sum id Json (json res)))))"

text \<open>
  \<^verbatim>\<open>Promise.all\<close> over settled promises: fulfilled with all the values, in the order of
  the list, once the last one is there, or rejected with the earliest rejection (the
  first in the list among rejections of the same time).
\<close>

fun Promise_all :: "'a promise list \<Rightarrow> 'a list promise" where
  "Promise_all [] = (0, Inr [])"
| "Promise_all ((at, r) # ps) =
     (case (r, Promise_all ps) of
        (Inr v, (u, Inr vs)) \<Rightarrow> (max at u, Inr (v # vs))
      | (Inr v, (u, Inl e)) \<Rightarrow> (u, Inl e)
      | (Inl e, (u, Inr vs)) \<Rightarrow> (at, Inl e)
      | (Inl e, (u, Inl e')) \<Rightarrow> (if at \<le> u then (at, Inl e) else (u, Inl e')))"

text \<open>
  Modelled from the spec: \<^verbatim>\<open>bufutil.concat\<close> of \<^verbatim>\<open>commons/bufutil.js\<close>, which is not among
  the sources. It concatenates the byte payloads in the order of the list into one
  contiguous buffer. (A JSON value has no bytes; \<^verbatim>\<open>makeTd\<close> never passes one.)
\<close>

fun bytes_of :: "payload \<Rightarrow> bytes" where
  "bytes_of (Buffer b) = b"
| "bytes_of (Json j) = []"

definition bufutil_concat :: "payload list \<Rightarrow> payload" where
  "bufutil_concat tds = Buffer (concat (map bytes_of tds))"

section \<open>Assembling the trie\<close>

text \<open>
  The loop of \<^verbatim>\<open>makeTd\<close> (lines 251 to 262), from the index \<open>i\<close> on: each round calls
  \<^verbatim>\<open>fileFetch\<close> for one part and pushes its promise. The accumulator holds the requests
  sent so far and \<^verbatim>\<open>tdpromises\<close>.
\<close>

function tdloop ::
  "host \<Rightarrow> string \<Rightarrow> int \<Rightarrow> int \<Rightarrow> string list \<times> payload promise list
     \<Rightarrow> string list \<times> payload promise list" where
  "tdloop h baseurl n i acc =
     (if i \<le> n
      then (let f = baseurl @ ''/td'' @ toLocaleString i @ ''.txt'';
                (sent, p) = fileFetch h f ''buffer''
            in tdloop h baseurl n (i + 1) (fst acc @ sent, snd acc @ [p]))
      else acc)"
  by pat_completeness auto
termination
  by (relation "measure (\<lambda>(h, baseurl, n, i, acc). nat (n + 1 - i))") auto

text \<open>
  \<^verbatim>\<open>makeTd(baseurl, n)\<close> (lines 243 to 274): the requests it sends and the promise it
  returns. \<^verbatim>\<open>bufutil.concat\<close> is total here, so the \<^verbatim>\<open>reject(e.message)\<close> of line 271
  has no counterpart. The promise is settled here at the time at which the request of
  \<^verbatim>\<open>td.txt\<close>, or the join of the parts, is settled; the \<^verbatim>\<open>async\<close> function and the
  \<^verbatim>\<open>new Promise\<close> of the code settle theirs a few microtasks after that. Times are
  counted in whole steps of the platform here, so this delay is not visible; when the
  trie and another leg of a build are rejected in the same step, the join of the code may
  report the other leg's error where \<open>Promise_all\<close> reports the first in the list. The
  theorems on failed builds below speak of the error of some rejected leg.
\<close>

definition makeTd :: "host \<Rightarrow> string \<Rightarrow> int \<Rightarrow> string list \<times> payload promise" where
  "makeTd h baseurl n =
     (if n \<le> - 1 then fileFetch h (baseurl @ ''/td.txt'') ''buffer''
      else (let (sent, tdpromises) = tdloop h baseurl n 0 ([], []) in
            (sent,
             (case Promise_all tdpromises of
                (at, Inl e) \<Rightarrow> (at, Inl e)
              | (at, Inr tds) \<Rightarrow> (at, Inr (bufutil_concat tds))))))"

section \<open>The wrapper and its shared state\<close>

text \<open>
  Modelled from the spec: the \<^verbatim>\<open>BlocklistFilter\<close> class of \<^verbatim>\<open>blocklistFilter.js\<close>, which is
  not among the sources. An instance holds what \<^verbatim>\<open>loadFilter(trie, frozenTrie,
  basicConfig, fileTags)\<close> stores in it; a new instance holds nothing. The field \<open>bf_t\<close>
  is the readiness marker \<^verbatim>\<open>blocklistFilter.t\<close> that line 94 reads.
\<close>

record BlocklistFilter =
  bf_t :: "tags option"
  bf_ft :: "frozentrie option"
  bf_blocklistBasicConfig :: "BasicConfig option"
  bf_blocklistFileTag :: "payload option"

definition new_BlocklistFilter :: BlocklistFilter where
  "new_BlocklistFilter =
     \<lparr>bf_t = None, bf_ft = None, bf_blocklistBasicConfig = None, bf_blocklistFileTag = None\<rparr>"

text \<open>
  Objects are shared by reference: a reference names an object of the store, and the
  wrapper and the responses hold the reference of the filter, not a copy of it.
\<close>

type_synonym ref = nat

text \<open>
  The fields of \<^verbatim>\<open>BlocklistWrapper\<close> (lines 16 to 23), then the store of filter objects
  and the list of the requests sent with \<^verbatim>\<open>fetch\<close> so far, oldest first.
\<close>

record BlocklistWrapper =
  blocklistFilter :: ref
  td :: "payload option"
  rd :: "payload option"
  ft :: "payload option"
  startTime :: int
  isBlocklistUnderConstruction :: bool
  exceptionFrom :: string
  exceptionStack :: string

record world = BlocklistWrapper +
  heap :: "ref \<Rightarrow> BlocklistFilter"
  fetched :: "string list"

text \<open>The constructor (lines 15 to 25): a new wrapper with a new, empty filter.\<close>

definition constructor :: world where
  "constructor =
     \<lparr>blocklistFilter = 0, td = None, rd = None, ft = None, startTime = 0,
      isBlocklistUnderConstruction = False, exceptionFrom = [], exceptionStack = [],
      heap = (\<lambda>r. new_BlocklistFilter), fetched = []\<rparr>"

text \<open>
  Modelled from the spec: the response envelope and the helpers \<^verbatim>\<open>util.emptyResponse\<close>,
  \<^verbatim>\<open>util.errResponse\<close> and \<^verbatim>\<open>util.emptyObj\<close> of \<^verbatim>\<open>commons/util.js\<close>, which is not among
  the sources. The envelope is \<^verbatim>\<open>{isException, exceptionFrom, exceptionStack, data:
  {blocklistFilter}}\<close>; its fields are \<open>isException\<close>, \<open>r_exceptionFrom\<close>,
  \<open>r_exceptionStack\<close> and \<open>data_blocklistFilter\<close> here, the last one \<open>None\<close> while not
  set. An error envelope carries the name of the failing stage and the diagnostic
  message of the failure. An object is empty when it has no key of its own; a filter
  instance always has its four.
\<close>

record ResponseEnvelope =
  isException :: bool
  r_exceptionStack :: string
  r_exceptionFrom :: string
  data_blocklistFilter :: "ref option"

definition emptyResponse :: ResponseEnvelope where
  "emptyResponse =
     \<lparr>isException = False, r_exceptionStack = [], r_exceptionFrom = [],
      data_blocklistFilter = None\<rparr>"

definition errResponse :: "string \<Rightarrow> Error \<Rightarrow> ResponseEnvelope" where
  "errResponse id' e =
     \<lparr>isException = True, r_exceptionStack = message e, r_exceptionFrom = id',
      data_blocklistFilter = None\<rparr>"

definition emptyObj :: "BlocklistFilter \<Rightarrow> bool" where
  "emptyObj x = False"

text \<open>The parameter of \<^verbatim>\<open>RethinkModule\<close> (lines 27 to 36).\<close>

record param =
  blocklistUrl :: string
  latestTimestamp :: string
  workerTimeout :: int
  tdParts :: int
  tdNodecount :: int
  fetchTimeout :: int

text \<open>\<^verbatim>\<open>isBlocklistFilterSetup\<close> (lines 93 to 95).\<close>

definition isBlocklistFilterSetup :: "world \<Rightarrow> bool" where
  "isBlocklistFilterSetup w =
     (\<not> emptyObj (heap w (blocklistFilter w)) \<and> bf_t (heap w (blocklistFilter w)) \<noteq> None)"

section \<open>Downloading and building\<close>

text \<open>
  The object \<^verbatim>\<open>resp\<close> that \<^verbatim>\<open>downloadBuildBlocklist\<close> returns (lines 204 to 208).
\<close>

record resp =
  resp_t :: tags
  resp_ft :: frozentrie
  resp_blocklistBasicConfig :: BasicConfig
  resp_blocklistFileTag :: payload

text \<open>
  \<^verbatim>\<open>downloadBuildBlocklist\<close> up to its \<^verbatim>\<open>await\<close> (lines 170 to 189): the requests it
  sends, the basic config, and the joined promise of the three downloads. \<^verbatim>\<open>x || -1\<close>
  is \<open>- 1\<close> when the number \<open>x\<close> is zero.
\<close>

definition downloadBuildBlocklist ::
  "host \<Rightarrow> string \<Rightarrow> string \<Rightarrow> int \<Rightarrow> int
     \<Rightarrow> string list \<times> BasicConfig \<times> payload list promise" where
  "downloadBuildBlocklist h blocklistUrl' latestTimestamp' tdNodecount' tdParts' =
     (let baseurl = blocklistUrl' @ latestTimestamp';
          blocklistBasicConfig =
            \<lparr>nodecount = (if tdNodecount' \<noteq> 0 then tdNodecount' else - 1),
             tdparts = (if tdParts' \<noteq> 0 then tdParts' else - 1)\<rparr>;
          (sent0, buf0) = fileFetch h (baseurl @ ''/filetag.json'') ''json'';
          (sent1, buf1) = makeTd h baseurl (tdparts blocklistBasicConfig);
          (sent2, buf2) = fileFetch h (baseurl @ ''/rd.txt'') ''buffer''
      in (sent0 @ sent1 @ sent2, blocklistBasicConfig, Promise_all [buf0, buf1, buf2]))"

text \<open>
  The rest of \<^verbatim>\<open>downloadBuildBlocklist\<close>, once the three downloads are there (lines 191
  to 208): it stores them in the wrapper and calls the filter builder with them and
  the basic config. \<^verbatim>\<open>Promise.all\<close> of three promises resolves to three values; no
  other list reaches this point.
\<close>

definition downloadBuildBlocklist_built ::
  "host \<Rightarrow> BasicConfig \<Rightarrow> world \<Rightarrow> payload list \<Rightarrow> world \<times> (Error + resp)" where
  "downloadBuildBlocklist_built h blocklistBasicConfig w downloads =
     (case downloads of
        [d0, d1, d2] \<Rightarrow>
          (let w' = w\<lparr>td := Some d1, rd := Some d2, ft := Some d0\<rparr> in
           (case createBlocklistFilter h d1 d2 d0 blocklistBasicConfig of
              Inl e \<Rightarrow> (w', Inl e)
            | Inr (t', ft') \<Rightarrow>
                (w', Inr \<lparr>resp_t = t', resp_ft = ft',
                          resp_blocklistBasicConfig = blocklistBasicConfig,
                          resp_blocklistFileTag = d0\<rparr>)))
      | _ \<Rightarrow> (w, Inl (Error ''downloads'')))"

text \<open>
  \<^verbatim>\<open>this.blocklistFilter.loadFilter(bl.t, bl.ft, bl.blocklistBasicConfig,
  bl.blocklistFileTag)\<close> (lines 136 to 141): the filter object is updated in place.
\<close>

definition loadFilter :: "world \<Rightarrow> resp \<Rightarrow> world" where
  "loadFilter w bl =
     w\<lparr>heap := (heap w)(blocklistFilter w :=
          \<lparr>bf_t = Some (resp_t bl), bf_ft = Some (resp_ft bl),
           bf_blocklistBasicConfig = Some (resp_blocklistBasicConfig bl),
           bf_blocklistFileTag = Some (resp_blocklistFileTag bl)\<rparr>)\<rparr>"

section \<open>One call, from suspension to suspension\<close>

text \<open>
  A call of \<^verbatim>\<open>RethinkModule\<close> runs until it returns or suspends at an \<^verbatim>\<open>await\<close>; other
  calls run while it is suspended. A call is suspended either as the builder, at the
  join of its downloads (line 189; it keeps its host, its basic config and the joined
  promise), or as a waiter, in the \<^verbatim>\<open>sleep\<close> of line 76 (it keeps its parameter and
  \<^verbatim>\<open>totalWaitms\<close>).
\<close>

datatype task =
    Downloading host BasicConfig "payload list promise"
  | Sleeping param int
  | Returned ResponseEnvelope

text \<open>The \<^verbatim>\<open>catch\<close> of \<^verbatim>\<open>initBlocklistConstruction\<close> and its last lines (151 to 160).\<close>

definition initBlocklistConstruction_catch :: "world \<Rightarrow> Error \<Rightarrow> world \<times> task" where
  "initBlocklistConstruction_catch w e =
     (let response = errResponse ''initBlocklistConstruction'' e in
      (w\<lparr>exceptionFrom := r_exceptionFrom response,
         exceptionStack := r_exceptionStack response,
         isBlocklistUnderConstruction := False\<rparr>,
       Returned response))"

text \<open>
  \<^verbatim>\<open>initBlocklistConstruction\<close> up to the \<^verbatim>\<open>await\<close> of line 128: it raises the flag,
  records the start time and sends the requests of the build.
\<close>

definition initBlocklistConstruction ::
  "world \<Rightarrow> host \<Rightarrow> int \<Rightarrow> string \<Rightarrow> string \<Rightarrow> int \<Rightarrow> int \<Rightarrow> world \<times> task" where
  "initBlocklistConstruction w h when blocklistUrl' latestTimestamp' tdNodecount' tdParts' =
     (let w1 = w\<lparr>isBlocklistUnderConstruction := True, startTime := when\<rparr>;
          (sent, blocklistBasicConfig, downloads) =
             downloadBuildBlocklist h blocklistUrl' latestTimestamp' tdNodecount' tdParts'
      in (w1\<lparr>fetched := fetched w1 @ sent\<rparr>,
          Downloading h blocklistBasicConfig downloads))"

text \<open>
  \<^verbatim>\<open>initBlocklistConstruction\<close> from the moment the joined promise has settled, run in
  the world \<open>w\<close> of that moment (lines 128 to 160). The rest of
  \<^verbatim>\<open>downloadBuildBlocklist\<close> and the rest of \<^verbatim>\<open>initBlocklistConstruction\<close> are taken as one
  step: between them only the promise that \<^verbatim>\<open>downloadBuildBlocklist\<close> returned settles,
  the first writes nothing but \<open>td\<close>, \<open>rd\<close> and \<open>ft\<close>, which nothing else reads, and the
  second reads nothing of the shared state.
\<close>

definition initBlocklistConstruction_settled ::
  "world \<Rightarrow> host \<Rightarrow> BasicConfig \<Rightarrow> payload list promise \<Rightarrow> world \<times> task" where
  "initBlocklistConstruction_settled w h blocklistBasicConfig downloads =
     (case snd downloads of
        Inl e \<Rightarrow> initBlocklistConstruction_catch w e
      | Inr ds \<Rightarrow>
          (case downloadBuildBlocklist_built h blocklistBasicConfig w ds of
             (w', Inl e) \<Rightarrow> initBlocklistConstruction_catch w' e
           | (w', Inr bl) \<Rightarrow>
               (let w'' = loadFilter w' bl in
                (w''\<lparr>isBlocklistUnderConstruction := False\<rparr>,
                 Returned (emptyResponse\<lparr>data_blocklistFilter := Some (blocklistFilter w'')\<rparr>)))))"

text \<open>Lines 80 to 83: the response of a waiter whose budget is used up.\<close>

definition timeout_response :: "world \<Rightarrow> int \<Rightarrow> ResponseEnvelope" where
  "timeout_response w totalWaitms =
     emptyResponse
       \<lparr>isException := True,
        r_exceptionStack :=
          (if exceptionStack w \<noteq> [] then exceptionStack w
           else ''blocklist-filter timeout '' @ String_of totalWaitms),
        r_exceptionFrom :=
          (if exceptionFrom w \<noteq> [] then exceptionFrom w else ''blocklistWrapper.js'')\<rparr>"

text \<open>
  The \<^verbatim>\<open>while\<close> loop of the waiter (lines 71 to 78), entered at its test with the
  current \<^verbatim>\<open>totalWaitms\<close> in the world \<open>w\<close>, up to the next \<^verbatim>\<open>sleep\<close> or the return.
\<close>

definition wait_loop :: "world \<Rightarrow> param \<Rightarrow> int \<Rightarrow> task" where
  "wait_loop w p totalWaitms =
     (if totalWaitms < fetchTimeout p
      then (if isBlocklistFilterSetup w
            then Returned (emptyResponse\<lparr>data_blocklistFilter := Some (blocklistFilter w)\<rparr>)
            else Sleeping p totalWaitms)
      else Returned (timeout_response w totalWaitms))"

text \<open>
  \<^verbatim>\<open>RethinkModule(param)\<close> (lines 37 to 91) from the call to its first suspension or
  its return. \<open>now\<close> is what \<^verbatim>\<open>Date.now()\<close> returns at line 46 and \<open>h\<close> the host that the
  call meets. Nothing between lines 46 and 84 throws in this model, so the \<^verbatim>\<open>catch\<close> of
  line 85 has no counterpart.
\<close>

definition RethinkModule :: "world \<Rightarrow> int \<Rightarrow> host \<Rightarrow> param \<Rightarrow> world \<times> task" where
  "RethinkModule w now h p =
     (if isBlocklistFilterSetup w
      then (w, Returned (emptyResponse\<lparr>data_blocklistFilter := Some (blocklistFilter w)\<rparr>))
      else if \<not> isBlocklistUnderConstruction w \<or> now - startTime w > workerTimeout p * 2
      then initBlocklistConstruction w h now (blocklistUrl p) (latestTimestamp p)
             (tdNodecount p) (tdParts p)
      else (w, wait_loop w p 0))"

text \<open>A suspended call runs on, in the world \<open>w\<close> that it finds when it is resumed.\<close>

fun resume :: "world \<Rightarrow> task \<Rightarrow> world \<times> task" where
  "resume w (Downloading h blocklistBasicConfig downloads) =
     initBlocklistConstruction_settled w h blocklistBasicConfig downloads"
| "resume w (Sleeping p totalWaitms) = (w, wait_loop w p (totalWaitms + 50))"
| "resume w (Returned r) = (w, Returned r)"

section \<open>Many calls on one wrapper\<close>

text \<open>
  The wrapper with the calls made on it so far. An event is either a new call of
  \<^verbatim>\<open>RethinkModule\<close> (with the time, the host and the parameter of the call) or the
  resumption of the suspended call of a given number. The JavaScript scheduler runs
  one of them at a time, each up to its next suspension.
\<close>

type_synonym system = "world \<times> task list"

datatype event = Call int host param | Resume nat

fun step :: "system \<Rightarrow> event \<Rightarrow> system" where
  "step (w, ts) (Call now h p) = (let (w', k) = RethinkModule w now h p in (w', ts @ [k]))"
| "step (w, ts) (Resume i) =
     (if i < length ts then (let (w', k) = resume w (ts ! i) in (w', ts[i := k])) else (w, ts))"

definition exec :: "system \<Rightarrow> event list \<Rightarrow> system" where
  "exec s es = foldl step s es"

text \<open>
  A whole call as its caller sees it: \<open>obs k\<close> is the shared state that the call finds
  when it runs for the \<open>k\<close>-th time (\<open>obs 0\<close> at the call itself, \<open>obs 1\<close> when it is first
  resumed, and so on), whatever the other calls did in between.
\<close>

function run_task :: "(nat \<Rightarrow> world) \<Rightarrow> nat \<Rightarrow> task \<Rightarrow> ResponseEnvelope" where
  "run_task obs k (Returned r) = r"
| "run_task obs k (Downloading h c d) =
     run_task obs (Suc k) (snd (resume (obs (Suc k)) (Downloading h c d)))"
| "run_task obs k (Sleeping p waited) =
     run_task obs (Suc k) (snd (resume (obs (Suc k)) (Sleeping p waited)))"
  by pat_completeness auto
termination
  by (relation "measure (\<lambda>(obs, k, t).
        (case t of Returned r \<Rightarrow> 0 | Downloading h c d \<Rightarrow> 1
         | Sleeping p waited \<Rightarrow> 1 + nat (fetchTimeout p - waited)))")
     (auto simp: initBlocklistConstruction_settled_def initBlocklistConstruction_catch_def
        wait_loop_def Let_def split: sum.splits prod.splits)

definition acquire :: "(nat \<Rightarrow> world) \<Rightarrow> int \<Rightarrow> host \<Rightarrow> param \<Rightarrow> ResponseEnvelope" where
  "acquire obs now h p = run_task obs 0 (snd (RethinkModule (obs 0) now h p))"

text \<open>
  Modelled from the spec: the build state, one of \<open>Idle\<close>, \<open>Building\<close> (with the recorded
  start time) and \<open>Ready\<close>, read off the wrapper: \<open>Ready\<close> when the filter is set up,
  else \<open>Building\<close> while the under-construction flag is raised, else \<open>Idle\<close>.
\<close>

datatype BuildState = Idle | Building int | Ready

definition build_state :: "world \<Rightarrow> BuildState" where
  "build_state w =
     (if isBlocklistFilterSetup w then Ready
      else if isBlocklistUnderConstruction w then Building (startTime w)
      else Idle)"

section \<open>Example hosts and requests\<close>

text \<open>
  Concrete hosts and a concrete request, on which the theorems below are run. With
  \<open>host_up\<close> every request succeeds and the parts \<^verbatim>\<open>td00.txt\<close> and \<^verbatim>\<open>td01.txt\<close> have
  bodies of their own; with \<open>host_down\<close> every request is answered with status 404.
\<close>

definition response_ok :: "bytes \<Rightarrow> Response" where
  "response_ok b =
     \<lparr>ok = True, status = 200, enumerable = [], arrayBuffer = Inr b, json = Inr (JObj [])\<rparr>"

definition response_404 :: Response where
  "response_404 =
     \<lparr>ok = False, status = 404, enumerable = [], arrayBuffer = Inr [],
      json = Inl (Error ''Unexpected token'')\<rparr>"

definition host_up :: host where
  "host_up =
     \<lparr>fetch = (\<lambda>url. (1, Inr (response_ok
         (if url = ''u/1/td00.txt'' then [1, 2] else if url = ''u/1/td01.txt'' then [3] else [9])))),
      createBlocklistFilter = (\<lambda>d1 d2 d0 c. Inr (Tags 1, FrozenTrie 1))\<rparr>"

definition host_down :: host where
  "host_down =
     \<lparr>fetch = (\<lambda>url. (1, Inr response_404)),
      createBlocklistFilter = (\<lambda>d1 d2 d0 c. Inr (Tags 1, FrozenTrie 1))\<rparr>"

definition param0 :: param where
  "param0 =
     \<lparr>blocklistUrl = ''u/'', latestTimestamp = ''1'', workerTimeout = 10, tdParts = - 1,
      tdNodecount = 5, fetchTimeout = 100\<rparr>"

text \<open>The name of the \<open>i\<close>-th part of the trie (lines 253 to 260).\<close>

definition td_url :: "string \<Rightarrow> int \<Rightarrow> string" where
  "td_url baseurl i = baseurl @ ''/td'' @ toLocaleString i @ ''.txt''"

text \<open>A wrapper whose build, started at time \<open>1000\<close>, is still in progress.\<close>

definition world_stale :: world where
  "world_stale = constructor\<lparr>isBlocklistUnderConstruction := True, startTime := 1000\<rparr>"

text \<open>
  Three more hosts: one whose filter builder returns other objects, one whose filter
  builder throws, and one whose filter builder throws a value without a stack, so that
  the \<^verbatim>\<open>exceptionStack\<close> of the error envelope is empty.
\<close>

definition host_up2 :: host where
  "host_up2 = host_up\<lparr>createBlocklistFilter := (\<lambda>d1 d2 d0 c. Inr (Tags 2, FrozenTrie 2))\<rparr>"

definition host_throws :: host where
  "host_throws = host_up\<lparr>createBlocklistFilter := (\<lambda>d1 d2 d0 c. Inl (Error ''bad trie''))\<rparr>"

definition host_silent :: host where
  "host_silent = host_up\<lparr>createBlocklistFilter := (\<lambda>d1 d2 d0 c. Inl (Error []))\<rparr>"

text \<open>The basic config of a build for \<open>param0\<close>.\<close>

definition config0 :: BasicConfig where
  "config0 = \<lparr>nodecount = 5, tdparts = - 1\<rparr>"

text \<open>A wrapper one of whose builds has failed; nothing is in progress.\<close>

definition system_failed :: system where
  "system_failed = exec (constructor, []) [Call 0 host_down param0, Resume 0]"

text \<open>
  The wrapper after a build has failed and a second one has been started at time
  \<open>1000\<close>, which is still in progress.
\<close>

definition world_failed_before :: world where
  "world_failed_before =
     fst (exec (constructor, []) [Call 0 host_down param0, Resume 0, Call 1000 host_up param0])"

text \<open>
  Every response handed out so far that carries a filter carries the reference of the
  wrapper's own filter, and that filter is set up.
\<close>

definition handed_out :: "system \<Rightarrow> bool" where
  "handed_out s \<longleftrightarrow>
     (\<forall>r f. Returned r \<in> set (snd s) \<and> data_blocklistFilter r = Some f \<longrightarrow>
        f = blocklistFilter (fst s) \<and> isBlocklistFilterSetup (fst s))"

section \<open>Notions that the claims use\<close>

text \<open>
  The number of times a waiter sleeps before its budget is used up: the least \<open>n\<close> with
  \<open>fetchTimeout \<le> 50 n\<close>.
\<close>

definition sleeps :: "param \<Rightarrow> nat" where
  "sleeps p = nat ((fetchTimeout p + 49) div 50)"

text \<open>
  The event resumes a builder whose attempt fails, that is, ends in the \<^verbatim>\<open>catch\<close> of
  \<^verbatim>\<open>initBlocklistConstruction\<close>; and a run in which no event does.
\<close>

definition build_fails :: "system \<Rightarrow> event \<Rightarrow> bool" where
  "build_fails s e =
     (case e of
        Call now h p \<Rightarrow> False
      | Resume i \<Rightarrow>
          i < length (snd s) \<and>
          (case snd s ! i of
             Downloading h c d \<Rightarrow>
               (case snd (resume (fst s) (Downloading h c d)) of
                  Returned r \<Rightarrow> isException r
                | _ \<Rightarrow> False)
           | _ \<Rightarrow> False))"

fun no_new_failure :: "system \<Rightarrow> event list \<Rightarrow> bool" where
  "no_new_failure s [] = True"
| "no_new_failure s (e # es) = (\<not> build_fails s e \<and> no_new_failure (step s e) es)"

text \<open>
  The event resumes a builder whose attempt fails with an empty stack, so that the
  \<^verbatim>\<open>catch\<close> records the empty string as \<^verbatim>\<open>exceptionStack\<close>; and a run in which no
  event does.
\<close>

definition silent_failure :: "system \<Rightarrow> event \<Rightarrow> bool" where
  "silent_failure s e =
     (case e of
        Call now h p \<Rightarrow> False
      | Resume i \<Rightarrow>
          i < length (snd s) \<and>
          (case snd s ! i of
             Downloading h c d \<Rightarrow>
               (case snd (resume (fst s) (Downloading h c d)) of
                  Returned r \<Rightarrow> isException r \<and> r_exceptionStack r = []
                | _ \<Rightarrow> False)
           | _ \<Rightarrow> False))"

fun no_silent_failure :: "system \<Rightarrow> event list \<Rightarrow> bool" where
  "no_silent_failure s [] = True"
| "no_silent_failure s (e # es) = (\<not> silent_failure s e \<and> no_silent_failure (step s e) es)"

text \<open>The three promises that a build joins: file tags, assembled trie, rank directory.\<close>

definition legs :: "host \<Rightarrow> string \<Rightarrow> BasicConfig \<Rightarrow> payload promise list" where
  "legs h baseurl c =
     [snd (fileFetch h (baseurl @ ''/filetag.json'') ''json''),
      snd (makeTd h baseurl (tdparts c)),
      snd (fileFetch h (baseurl @ ''/rd.txt'') ''buffer'')]"

text \<open>The number of builders in flight: the calls suspended at the join of their downloads.\<close>

fun downloading :: "task \<Rightarrow> bool" where
  "downloading (Downloading h c d) = True"
| "downloading (Sleeping p n) = False"
| "downloading (Returned r) = False"

definition in_flight :: "task list \<Rightarrow> nat" where
  "in_flight ts = length (filter downloading ts)"

text \<open>
  The event is a call that takes over a build in progress as stale (lines 49 to 52);
  and a run in which no event does.
\<close>

fun takes_over :: "system \<Rightarrow> event \<Rightarrow> bool" where
  "takes_over s (Call now h p) =
     (\<not> isBlocklistFilterSetup (fst s) \<and> isBlocklistUnderConstruction (fst s) \<and>
      now - startTime (fst s) > workerTimeout p * 2)"
| "takes_over s (Resume i) = False"

fun no_takeover :: "system \<Rightarrow> event list \<Rightarrow> bool" where
  "no_takeover s [] = True"
| "no_takeover s (e # es) = (\<not> takes_over s e \<and> no_takeover (step s e) es)"

text \<open>
  Modelled from the spec: the transitions of the build state that the spec allows,
  \<open>Idle\<close> to \<open>Building\<close>, \<open>Building\<close> to \<open>Ready\<close> and \<open>Building\<close> to \<open>Idle\<close>, besides no
  change at all.
\<close>

definition allowed :: "BuildState \<Rightarrow> BuildState \<Rightarrow> bool" where
  "allowed a b =
     (a = b \<or>
      (case (a, b) of
         (Idle, Building t) \<Rightarrow> True
       | (Building t, Ready) \<Rightarrow> True
       | (Building t, Idle) \<Rightarrow> True
       | _ \<Rightarrow> False))"

text \<open>
  Every step of the run from \<open>s\<close> is an allowed transition, leaves at most one builder in
  flight, and leaves the store alone when the state is \<open>Ready\<close>.
\<close>

fun lawful :: "system \<Rightarrow> event list \<Rightarrow> bool" where
  "lawful s [] = True"
| "lawful s (e # es) =
     (allowed (build_state (fst s)) (build_state (fst (step s e))) \<and>
      in_flight (snd (step s e)) \<le> 1 \<and>
      (build_state (fst s) = Ready \<longrightarrow> heap (fst (step s e)) = heap (fst s)) \<and>
      lawful (step s e) es)"

text \<open>
  At most one builder is in flight; the flag is up exactly while one is; none is once
  the filter is set up.
\<close>

definition one_builder :: "system \<Rightarrow> bool" where
  "one_builder s \<longleftrightarrow>
     in_flight (snd s) \<le> 1 \<and>
     (isBlocklistUnderConstruction (fst s) \<longleftrightarrow> in_flight (snd s) = 1) \<and>
     (isBlocklistFilterSetup (fst s) \<longrightarrow> in_flight (snd s) = 0)"

section \<open>Fetching and assembling: lemmas\<close>

lemma param0_fields:
  "fetchTimeout param0 = 100" "workerTimeout param0 = 10"
  by (simp_all add: param0_def)

declare digits.simps [simp del]
declare tdloop.simps [simp del]

lemma fileFetch_buffer_sent: "fst (fileFetch h url ''buffer'') = [url]"
  by (simp add: fileFetch_def)

lemma fileFetch_buffer_ok:
  "fetch h url = (at, Inr res) \<Longrightarrow> ok res \<Longrightarrow> arrayBuffer res = Inr b \<Longrightarrow>
   fileFetch h url ''buffer'' = ([url], (at, Inr (Buffer b)))"
  by (simp add: fileFetch_def)

text \<open>The loop sends one request per index from \<open>i\<close> to \<open>n\<close>, in ascending order.\<close>

lemma tdloop_eq:
  "tdloop h baseurl n i acc =
     (fst acc @ map (td_url baseurl) [i..n],
      snd acc @ map (\<lambda>j. snd (fileFetch h (td_url baseurl j) ''buffer'')) [i..n])"
proof (induction h baseurl n i acc rule: tdloop.induct)
  case (1 h baseurl n i acc)
  show ?case
  proof (cases "i \<le> n")
    case True
    obtain sent p where sp:
      "fileFetch h (baseurl @ ''/td'' @ toLocaleString i @ ''.txt'') ''buffer'' = (sent, p)"
      by (cases "fileFetch h (baseurl @ ''/td'' @ toLocaleString i @ ''.txt'') ''buffer''")
    have sent: "sent = [td_url baseurl i]"
      using fileFetch_buffer_sent[of h "td_url baseurl i"] sp by (simp add: td_url_def)
    have up: "[i..n] = i # [i + 1..n]" using True by (simp add: upto_rec1)
    show ?thesis
      using True sp sent "1.IH"[OF True refl sp[symmetric]]
      by (subst tdloop.simps) (simp add: up td_url_def)
  next
    case False
    then show ?thesis by (subst tdloop.simps) simp
  qed
qed

text \<open>The join is fulfilled exactly when every promise is, with the values in order.\<close>

lemma Promise_all_Inr_iff:
  "snd (Promise_all ps) = Inr vs \<longleftrightarrow> map snd ps = map Inr vs"
proof (induction ps arbitrary: vs rule: Promise_all.induct)
  case 1
  show ?case by auto
next
  case (2 at r ps)
  show ?case
  proof (cases "Promise_all ps")
    case (Pair u q)
    show ?thesis
    proof (cases vs)
      case Nil
      then show ?thesis using Pair by (simp split: sum.splits)
    next
      case (Cons v vs')
      then show ?thesis using Pair "2.IH"[of vs'] by (auto split: sum.splits)
    qed
  qed
qed

lemma Promise_all_isl_iff:
  "isl (snd (Promise_all ps)) \<longleftrightarrow> (\<exists>p \<in> set ps. isl (snd p))"
  by (induction ps rule: Promise_all.induct) (auto split: sum.splits prod.splits)

lemma Promise_all_Inl_mem:
  "Promise_all ps = (at, Inl e) \<Longrightarrow> (at, Inl e) \<in> set ps"
  by (induction ps arbitrary: at e rule: Promise_all.induct)
     (auto split: sum.splits prod.splits if_splits)

lemma makeTd_sent:
  "0 \<le> n \<Longrightarrow> fst (makeTd h baseurl n) = map (td_url baseurl) [0..n]"
  by (simp add: makeTd_def tdloop_eq split: prod.splits)

lemma makeTd_body:
  assumes n: "0 \<le> n"
    and up: "\<forall>i \<in> {0..n}. \<exists>at res. fetch h (td_url baseurl i) = (at, Inr res) \<and> ok res
                \<and> arrayBuffer res = Inr (body i)"
  shows "snd (snd (makeTd h baseurl n)) = Inr (Buffer (concat (map body [0..n])))"
proof -
  let ?ps = "map (\<lambda>j. snd (fileFetch h (td_url baseurl j) ''buffer'')) [0..n]"
  have each: "snd (snd (fileFetch h (td_url baseurl i) ''buffer'')) = Inr (Buffer (body i))"
    if "i \<in> {0..n}" for i
  proof -
    from up that obtain at res where "fetch h (td_url baseurl i) = (at, Inr res)" "ok res"
      "arrayBuffer res = Inr (body i)" by blast
    then show ?thesis by (simp add: fileFetch_buffer_ok)
  qed
  have "map snd ?ps = map Inr (map (\<lambda>i. Buffer (body i)) [0..n])"
    using each by simp
  then have all: "snd (Promise_all ?ps) = Inr (map (\<lambda>i. Buffer (body i)) [0..n])"
    by (simp only: Promise_all_Inr_iff)
  have cat: "bufutil_concat (map (\<lambda>i. Buffer (body i)) [0..n]) = Buffer (concat (map body [0..n]))"
    by (simp add: bufutil_concat_def comp_def)
  obtain at q where pq: "Promise_all ?ps = (at, q)" by (cases "Promise_all ?ps")
  with all have q: "q = Inr (map (\<lambda>i. Buffer (body i)) [0..n])" by simp
  show ?thesis
    using n pq q cat by (simp add: makeTd_def tdloop_eq)
qed

lemma toLocaleString_small:
  "0 \<le> i \<Longrightarrow> i < 10 \<Longrightarrow> toLocaleString i = [CHR ''0'', digit_char (nat i)]"
proof -
  assume "0 \<le> i" "i < 10"
  then have "nat \<bar>i\<bar> < 10" "\<bar>i\<bar> = i" by auto
  then show ?thesis using \<open>0 \<le> i\<close> by (simp add: toLocaleString_def digits.simps Let_def)
qed

lemma length_digits: "10 \<le> n \<Longrightarrow> 2 \<le> length (digits n)"
  by (subst digits.simps, simp, subst digits.simps, simp)

lemma toLocaleString_large: "10 \<le> i \<Longrightarrow> toLocaleString i = digits (nat i)"
  using length_digits[of "nat i"] by (simp add: toLocaleString_def Let_def)

lemma downloadBuildBlocklist_sent:
  "fst (downloadBuildBlocklist h u ts nc parts) =
     [u @ ts @ ''/filetag.json''] @ fst (makeTd h (u @ ts) (if parts \<noteq> 0 then parts else - 1))
       @ [u @ ts @ ''/rd.txt'']"
  by (simp add: downloadBuildBlocklist_def fileFetch_def Let_def split: prod.splits)

lemma upto_0_1: "[0..1::int] = [0, 1]"
  by (simp add: upto_rec1)

section \<open>The single-artifact path\<close>

text \<open>
  Claim C7. For a part count of \<open>- 1\<close>, \<^verbatim>\<open>makeTd\<close> sends exactly one request, to
  \<^verbatim>\<open>baseurl + "/td.txt"\<close>, read as raw bytes, and when that request succeeds the promise
  it returns is fulfilled with the bytes of the response, unmodified. A build whose
  request has \<^verbatim>\<open>tdParts = -1\<close> sends this request between the ones for the file tags
  and the rank directory.
\<close>

theorem makeTd_single_artifact:
  "fst (makeTd h baseurl (- 1)) = [baseurl @ ''/td.txt''] \<and>
   (\<forall>at res b. fetch h (baseurl @ ''/td.txt'') = (at, Inr res) \<and> ok res \<and> arrayBuffer res = Inr b
      \<longrightarrow> snd (makeTd h baseurl (- 1)) = (at, Inr (Buffer b))) \<and>
   fst (downloadBuildBlocklist h u ts nc (- 1)) =
     [u @ ts @ ''/filetag.json'', u @ ts @ ''/td.txt'', u @ ts @ ''/rd.txt'']"
proof -
  have one: "fst (makeTd h b (- 1)) = [b @ ''/td.txt'']" for b
    by (simp add: makeTd_def fileFetch_def)
  have body: "snd (makeTd h baseurl (- 1)) = (at, Inr (Buffer b))"
    if "fetch h (baseurl @ ''/td.txt'') = (at, Inr res)" "ok res" "arrayBuffer res = Inr b"
    for at res b
    using that by (simp add: makeTd_def fileFetch_buffer_ok)
  show ?thesis
    using one body by (simp add: downloadBuildBlocklist_sent)
qed

theorem makeTd_single_artifact_witness:
  "fst (makeTd host_up ''u/1'' (- 1)) = [''u/1/td.txt''] \<and>
   snd (makeTd host_up ''u/1'' (- 1)) = (1, Inr (Buffer [9]))"
proof -
  have "fetch host_up (''u/1'' @ ''/td.txt'') = (1, Inr (response_ok [9])) \<and> ok (response_ok [9])
      \<and> arrayBuffer (response_ok [9]) = Inr [9]"
    by (simp add: host_up_def response_ok_def)
  with makeTd_single_artifact[of host_up "''u/1''"] show ?thesis by auto
qed

section \<open>The multi-part path\<close>

text \<open>
  Claim C2, as amended. For every part count \<open>n \<ge> 0\<close> that reaches \<^verbatim>\<open>makeTd\<close>, it sends
  exactly \<open>n + 1\<close> requests, to \<^verbatim>\<open>baseurl + "/td" + i + ".txt"\<close> for \<open>i\<close> from \<open>0\<close> to \<open>n\<close> in
  ascending order, where \<open>i\<close> is written in decimal with at least two digits and no
  grouping (a leading zero below ten, the natural width from ten on); when all of them
  succeed, the trie body is the concatenation of their byte payloads in ascending order
  of the index. A build hands the \<^verbatim>\<open>tdParts\<close> of its request to \<^verbatim>\<open>makeTd\<close> unchanged
  when it is at least \<open>1\<close>, so all of this holds for requests with \<^verbatim>\<open>tdParts = n \<ge> 1\<close>.
  (A request with \<^verbatim>\<open>tdParts = 0\<close> does not reach \<^verbatim>\<open>makeTd\<close> as \<open>0\<close>: see the
  counterexample below and claim C8.)
\<close>

theorem makeTd_parts:
  "0 \<le> n \<longrightarrow>
     fst (makeTd h baseurl n) = map (\<lambda>i. baseurl @ ''/td'' @ toLocaleString i @ ''.txt'') [0..n] \<and>
     length (fst (makeTd h baseurl n)) = nat n + 1 \<and>
     (\<forall>i \<in> {0..n}. toLocaleString i =
         (if i < 10 then [CHR ''0'', digit_char (nat i)] else digits (nat i))) \<and>
     ((\<forall>i \<in> {0..n}. \<exists>at res. fetch h (baseurl @ ''/td'' @ toLocaleString i @ ''.txt'') = (at, Inr res)
           \<and> ok res \<and> arrayBuffer res = Inr (body i))
        \<longrightarrow> snd (snd (makeTd h baseurl n)) = Inr (Buffer (concat (map body [0..n])))) \<and>
     (1 \<le> n \<longrightarrow> fst (downloadBuildBlocklist h u ts nc n) =
         [u @ ts @ ''/filetag.json'']
          @ map (\<lambda>i. (u @ ts) @ ''/td'' @ toLocaleString i @ ''.txt'') [0..n]
          @ [u @ ts @ ''/rd.txt''])"
proof
  assume n: "0 \<le> n"
  have sent: "fst (makeTd h b n) = map (\<lambda>i. b @ ''/td'' @ toLocaleString i @ ''.txt'') [0..n]" for b
    using makeTd_sent[OF n, of h b] by (simp add: td_url_def[abs_def])
  have len: "length (fst (makeTd h baseurl n)) = nat n + 1"
    using n by (simp add: sent)
  have fmt: "\<forall>i \<in> {0..n}. toLocaleString i =
         (if i < 10 then [CHR ''0'', digit_char (nat i)] else digits (nat i))"
    by (auto simp: toLocaleString_small toLocaleString_large)
  have body: "(\<forall>i \<in> {0..n}. \<exists>at res. fetch h (baseurl @ ''/td'' @ toLocaleString i @ ''.txt'') = (at, Inr res)
           \<and> ok res \<and> arrayBuffer res = Inr (body i))
        \<longrightarrow> snd (snd (makeTd h baseurl n)) = Inr (Buffer (concat (map body [0..n])))"
    using makeTd_body[OF n, of h baseurl body] by (simp add: td_url_def)
  have build: "1 \<le> n \<longrightarrow> fst (downloadBuildBlocklist h u ts nc n) =
         [u @ ts @ ''/filetag.json'']
          @ map (\<lambda>i. (u @ ts) @ ''/td'' @ toLocaleString i @ ''.txt'') [0..n]
          @ [u @ ts @ ''/rd.txt'']"
    by (simp add: downloadBuildBlocklist_sent sent)
  show "fst (makeTd h baseurl n) = map (\<lambda>i. baseurl @ ''/td'' @ toLocaleString i @ ''.txt'') [0..n] \<and>
     length (fst (makeTd h baseurl n)) = nat n + 1 \<and>
     (\<forall>i \<in> {0..n}. toLocaleString i =
         (if i < 10 then [CHR ''0'', digit_char (nat i)] else digits (nat i))) \<and>
     ((\<forall>i \<in> {0..n}. \<exists>at res. fetch h (baseurl @ ''/td'' @ toLocaleString i @ ''.txt'') = (at, Inr res)
           \<and> ok res \<and> arrayBuffer res = Inr (body i))
        \<longrightarrow> snd (snd (makeTd h baseurl n)) = Inr (Buffer (concat (map body [0..n])))) \<and>
     (1 \<le> n \<longrightarrow> fst (downloadBuildBlocklist h u ts nc n) =
         [u @ ts @ ''/filetag.json'']
          @ map (\<lambda>i. (u @ ts) @ ''/td'' @ toLocaleString i @ ''.txt'') [0..n]
          @ [u @ ts @ ''/rd.txt''])"
    using sent len fmt body build by blast
qed

theorem makeTd_parts_witness:
  "fst (makeTd host_up ''u/1'' 1) = [''u/1/td00.txt'', ''u/1/td01.txt''] \<and>
   snd (snd (makeTd host_up ''u/1'' 1)) = Inr (Buffer [1, 2, 3]) \<and>
   fst (downloadBuildBlocklist host_up ''u/'' ''1'' 5 1) =
     [''u/1/filetag.json'', ''u/1/td00.txt'', ''u/1/td01.txt'', ''u/1/rd.txt'']"
proof -
  have fmt: "toLocaleString 0 = ''00''" "toLocaleString 1 = ''01''"
    by (simp_all add: toLocaleString_def digits.simps digit_char_def Let_def)
  have up: "\<forall>i \<in> {0..1}. \<exists>at res.
      fetch host_up (''u/1'' @ ''/td'' @ toLocaleString i @ ''.txt'') = (at, Inr res) \<and> ok res
        \<and> arrayBuffer res = Inr ((\<lambda>i. if i = 0 then [1, 2] else [3]) i)"
  proof
    fix i :: int assume "i \<in> {0..1}"
    then have "i = 0 \<or> i = 1" by auto
    then show "\<exists>at res.
      fetch host_up (''u/1'' @ ''/td'' @ toLocaleString i @ ''.txt'') = (at, Inr res) \<and> ok res
        \<and> arrayBuffer res = Inr ((\<lambda>i. if i = 0 then [1, 2] else [3]) i)"
      by (auto simp: fmt host_up_def response_ok_def)
  qed
  show ?thesis
    using makeTd_parts[of 1 host_up "''u/1''" "\<lambda>i. if i = 0 then [1, 2] else [3]" "''u/''" "''1''" 5] up
    by (simp add: upto_0_1 fmt)
qed

text \<open>
  The claim as stated fails for a request with \<^verbatim>\<open>tdParts = 0\<close>: the build sends one
  request for the trie, but to \<^verbatim>\<open>/td.txt\<close>, and none to \<^verbatim>\<open>/td00.txt\<close>.
\<close>

theorem tdParts_zero_counterexample:
  "fst (downloadBuildBlocklist host_up ''u/'' ''1'' 5 0) =
     [''u/1/filetag.json'', ''u/1/td.txt'', ''u/1/rd.txt''] \<and>
   ''u/1/td00.txt'' \<notin> set (fst (downloadBuildBlocklist host_up ''u/'' ''1'' 5 0))"
  by (simp add: downloadBuildBlocklist_sent makeTd_def fileFetch_def)

section \<open>What a step leaves unchanged\<close>

lemma catch_frame:
  "blocklistFilter (fst (initBlocklistConstruction_catch w e)) = blocklistFilter w"
  "heap (fst (initBlocklistConstruction_catch w e)) = heap w"
  "fetched (fst (initBlocklistConstruction_catch w e)) = fetched w"
  "\<not> isBlocklistUnderConstruction (fst (initBlocklistConstruction_catch w e))"
  "snd (initBlocklistConstruction_catch w e) = Returned (errResponse ''initBlocklistConstruction'' e)"
  "exceptionFrom (fst (initBlocklistConstruction_catch w e)) = ''initBlocklistConstruction''"
  "exceptionStack (fst (initBlocklistConstruction_catch w e)) = message e"
  "startTime (fst (initBlocklistConstruction_catch w e)) = startTime w"
  by (simp_all add: initBlocklistConstruction_catch_def Let_def errResponse_def)

lemma built_frame:
  "blocklistFilter (fst (downloadBuildBlocklist_built h c w ds)) = blocklistFilter w"
  "heap (fst (downloadBuildBlocklist_built h c w ds)) = heap w"
  "fetched (fst (downloadBuildBlocklist_built h c w ds)) = fetched w"
  "isBlocklistUnderConstruction (fst (downloadBuildBlocklist_built h c w ds)) = isBlocklistUnderConstruction w"
  "exceptionFrom (fst (downloadBuildBlocklist_built h c w ds)) = exceptionFrom w"
  "exceptionStack (fst (downloadBuildBlocklist_built h c w ds)) = exceptionStack w"
  "startTime (fst (downloadBuildBlocklist_built h c w ds)) = startTime w"
  by (simp_all add: downloadBuildBlocklist_built_def Let_def split: list.splits sum.splits prod.splits)

lemma setup_cong:
  "heap w' = heap w \<Longrightarrow> blocklistFilter w' = blocklistFilter w \<Longrightarrow>
   isBlocklistFilterSetup w' = isBlocklistFilterSetup w"
  by (simp add: isBlocklistFilterSetup_def)

lemma loadFilter_frame:
  "blocklistFilter (loadFilter w bl) = blocklistFilter w"
  "isBlocklistFilterSetup (loadFilter w bl)"
  "fetched (loadFilter w bl) = fetched w"
  "exceptionFrom (loadFilter w bl) = exceptionFrom w"
  "exceptionStack (loadFilter w bl) = exceptionStack w"
  "startTime (loadFilter w bl) = startTime w"
  by (simp_all add: loadFilter_def isBlocklistFilterSetup_def emptyObj_def)

text \<open>The outcome of a settled build: the error that its catch handles, or the loaded world.\<close>

lemma settled_cases:
  obtains (failed) w' e where
      "initBlocklistConstruction_settled w h c d = initBlocklistConstruction_catch w' e"
      "heap w' = heap w" "blocklistFilter w' = blocklistFilter w" "fetched w' = fetched w"
      "exceptionFrom w' = exceptionFrom w" "exceptionStack w' = exceptionStack w"
      "startTime w' = startTime w"
  | (loaded) w' bl where
      "initBlocklistConstruction_settled w h c d =
         ((loadFilter w' bl)\<lparr>isBlocklistUnderConstruction := False\<rparr>,
          Returned (emptyResponse\<lparr>data_blocklistFilter := Some (blocklistFilter w)\<rparr>))"
      "heap w' = heap w" "blocklistFilter w' = blocklistFilter w" "fetched w' = fetched w"
      "exceptionFrom w' = exceptionFrom w" "exceptionStack w' = exceptionStack w"
      "startTime w' = startTime w"
proof (cases "snd d")
  case (Inl e)
  then have "initBlocklistConstruction_settled w h c d = initBlocklistConstruction_catch w e"
    by (simp add: initBlocklistConstruction_settled_def)
  then show ?thesis using failed by blast
next
  case (Inr ds)
  obtain w' q where b: "downloadBuildBlocklist_built h c w ds = (w', q)"
    by (cases "downloadBuildBlocklist_built h c w ds")
  have fr: "heap w' = heap w" "blocklistFilter w' = blocklistFilter w" "fetched w' = fetched w"
      "exceptionFrom w' = exceptionFrom w" "exceptionStack w' = exceptionStack w"
      "startTime w' = startTime w"
    using built_frame[of h c w ds] b by simp_all
  show ?thesis
  proof (cases q)
    case (Inl e)
    then have "initBlocklistConstruction_settled w h c d = initBlocklistConstruction_catch w' e"
      using Inr b by (simp add: initBlocklistConstruction_settled_def)
    then show ?thesis using failed fr by blast
  next
    case (Inr bl)
    then have "initBlocklistConstruction_settled w h c d =
         ((loadFilter w' bl)\<lparr>isBlocklistUnderConstruction := False\<rparr>,
          Returned (emptyResponse\<lparr>data_blocklistFilter := Some (blocklistFilter w)\<rparr>))"
      using \<open>snd d = Inr ds\<close> b fr
      by (simp add: initBlocklistConstruction_settled_def Let_def loadFilter_frame)
    then show ?thesis using loaded fr by blast
  qed
qed

lemma setup_flag_update [simp]:
  "isBlocklistFilterSetup (w\<lparr>isBlocklistUnderConstruction := b\<rparr>) = isBlocklistFilterSetup w"
  by (simp add: isBlocklistFilterSetup_def)

lemma settled_ref:
  "blocklistFilter (fst (initBlocklistConstruction_settled w h c d)) = blocklistFilter w"
  by (cases rule: settled_cases[of w h c d]) (simp_all add: catch_frame loadFilter_frame)

lemma settled_setup:
  "isBlocklistFilterSetup w \<Longrightarrow> isBlocklistFilterSetup (fst (initBlocklistConstruction_settled w h c d))"
proof (cases rule: settled_cases[of w h c d])
  case (failed w' e)
  assume "isBlocklistFilterSetup w"
  then show ?thesis using failed
    by (simp add: setup_cong[of "fst (initBlocklistConstruction_catch w' e)" w] catch_frame)
next
  case (loaded w' bl)
  then show ?thesis by (simp add: loadFilter_frame)
qed

lemma settled_data:
  "snd (initBlocklistConstruction_settled w h c d) = Returned r \<Longrightarrow> data_blocklistFilter r = Some f \<Longrightarrow>
   f = blocklistFilter w \<and> isBlocklistFilterSetup (fst (initBlocklistConstruction_settled w h c d))"
proof (cases rule: settled_cases[of w h c d])
  case (failed w' e)
  assume "snd (initBlocklistConstruction_settled w h c d) = Returned r" "data_blocklistFilter r = Some f"
  then show ?thesis using failed by (auto simp add: catch_frame errResponse_def)
next
  case (loaded w' bl)
  assume "snd (initBlocklistConstruction_settled w h c d) = Returned r" "data_blocklistFilter r = Some f"
  then show ?thesis using loaded by (auto simp add: loadFilter_frame emptyResponse_def)
qed

lemma wait_loop_data:
  "wait_loop w p n = Returned r \<Longrightarrow> data_blocklistFilter r = Some f \<Longrightarrow>
   f = blocklistFilter w \<and> isBlocklistFilterSetup w"
  by (auto simp: wait_loop_def timeout_response_def emptyResponse_def split: if_splits)

lemma resume_ref: "blocklistFilter (fst (resume w k)) = blocklistFilter w"
  by (cases k) (simp_all add: settled_ref)

lemma resume_setup: "isBlocklistFilterSetup w \<Longrightarrow> isBlocklistFilterSetup (fst (resume w k))"
  by (cases k) (simp_all add: settled_setup)

lemma resume_data:
  "snd (resume w k) = Returned r \<Longrightarrow> data_blocklistFilter r = Some f \<Longrightarrow>
   k = Returned r \<or> (f = blocklistFilter w \<and> isBlocklistFilterSetup (fst (resume w k)))"
  by (cases k) (auto dest: settled_data wait_loop_data)

lemma RethinkModule_ready:
  "isBlocklistFilterSetup w \<Longrightarrow>
   RethinkModule w now h p = (w, Returned (emptyResponse\<lparr>data_blocklistFilter := Some (blocklistFilter w)\<rparr>))"
  by (simp add: RethinkModule_def)

lemma init_frame:
  "blocklistFilter (fst (initBlocklistConstruction w h now u ts nc parts)) = blocklistFilter w"
  "heap (fst (initBlocklistConstruction w h now u ts nc parts)) = heap w"
  "\<exists>c d. snd (initBlocklistConstruction w h now u ts nc parts) = Downloading h c d"
  "exceptionFrom (fst (initBlocklistConstruction w h now u ts nc parts)) = exceptionFrom w"
  "exceptionStack (fst (initBlocklistConstruction w h now u ts nc parts)) = exceptionStack w"
  "isBlocklistUnderConstruction (fst (initBlocklistConstruction w h now u ts nc parts))"
  "startTime (fst (initBlocklistConstruction w h now u ts nc parts)) = now"
  by (simp_all add: initBlocklistConstruction_def Let_def split: prod.splits)

lemma RethinkModule_frame:
  "blocklistFilter (fst (RethinkModule w now h p)) = blocklistFilter w"
  "heap (fst (RethinkModule w now h p)) = heap w"
  "exceptionFrom (fst (RethinkModule w now h p)) = exceptionFrom w"
  "exceptionStack (fst (RethinkModule w now h p)) = exceptionStack w"
  by (simp_all add: RethinkModule_def init_frame)

lemma RethinkModule_data:
  "snd (RethinkModule w now h p) = Returned r \<Longrightarrow> data_blocklistFilter r = Some f \<Longrightarrow>
   f = blocklistFilter w \<and> isBlocklistFilterSetup w"
  using init_frame(3)[of w h now "blocklistUrl p" "latestTimestamp p" "tdNodecount p" "tdParts p"]
  by (auto simp: RethinkModule_def emptyResponse_def split: if_splits dest: wait_loop_data)

lemma step_Call:
  "step (w, ts) (Call now h p) = (fst (RethinkModule w now h p), ts @ [snd (RethinkModule w now h p)])"
  by (simp add: case_prod_beta)

lemma step_Resume:
  "step (w, ts) (Resume i) =
     (if i < length ts then (fst (resume w (ts ! i)), ts[i := snd (resume w (ts ! i))]) else (w, ts))"
  by (simp add: case_prod_beta)

lemma step_ref: "blocklistFilter (fst (step s e)) = blocklistFilter (fst s)"
  by (cases s; cases e) (simp_all only: step_Call step_Resume RethinkModule_frame resume_ref fst_conv if_distrib if_cancel split: if_splits)

lemma step_setup: "isBlocklistFilterSetup (fst s) \<Longrightarrow> isBlocklistFilterSetup (fst (step s e))"
proof (cases s)
  case (Pair w ts)
  assume r: "isBlocklistFilterSetup (fst s)"
  show ?thesis
  proof (cases e)
    case (Call now h p)
    then show ?thesis using Pair r
      by (simp only: step_Call fst_conv setup_cong[of "fst (RethinkModule w now h p)" w] RethinkModule_frame)
  next
    case (Resume i)
    then show ?thesis using Pair r resume_setup[of w "ts ! i"]
      by (simp only: step_Resume fst_conv split: if_splits) simp
  qed
qed

lemma step_handed_out: "handed_out s \<Longrightarrow> handed_out (step s e)"
proof (cases s)
  case (Pair w ts)
  assume inv: "handed_out s"
  have old: "f = blocklistFilter (fst (step s e)) \<and> isBlocklistFilterSetup (fst (step s e))"
    if "Returned r \<in> set ts" "data_blocklistFilter r = Some f" for r f
    using inv that Pair step_ref[of s e] step_setup[of s e] by (auto simp: handed_out_def)
  show ?thesis
  proof (cases e)
    case (Call now h p)
    obtain w' k where rm: "RethinkModule w now h p = (w', k)" by (cases "RethinkModule w now h p")
    have new: "f = blocklistFilter w' \<and> isBlocklistFilterSetup w'"
      if "k = Returned r" "data_blocklistFilter r = Some f" for r f
      using RethinkModule_data[of w now h p r f] that rm RethinkModule_ready[of w now h p] by auto
    show ?thesis
      using Pair Call rm old new unfolding handed_out_def by (auto simp only: step_Call fst_conv snd_conv set_append set_simps)
  next
    case (Resume i)
    show ?thesis
    proof (cases "i < length ts")
      case False
      then show ?thesis using Pair Resume inv by (simp only: step_Resume if_False)
    next
      case True
      obtain w' k where rs: "resume w (ts ! i) = (w', k)" by (cases "resume w (ts ! i)")
      have st: "step s e = (w', ts[i := k])" using Pair Resume True rs by (simp only: step_Resume if_True fst_conv snd_conv)
      have new: "f = blocklistFilter w' \<and> isBlocklistFilterSetup w'"
        if "k = Returned r" "data_blocklistFilter r = Some f" for r f
      proof -
        from resume_data[of w "ts ! i" r f] that rs
        consider "ts ! i = Returned r" | "f = blocklistFilter w \<and> isBlocklistFilterSetup w'" by auto
        then show ?thesis
        proof cases
          case 1
          then have "Returned r \<in> set ts" using True by (metis nth_mem)
          then show ?thesis using old[OF _ that(2)] st by simp
        next
          case 2
          then show ?thesis using resume_ref[of w "ts ! i"] rs by simp
        qed
      qed
      have "set (ts[i := k]) \<subseteq> insert k (set ts)" by (rule set_update_subset_insert)
      then show ?thesis
        using st old new unfolding handed_out_def by auto
    qed
  qed
qed

declare step.simps [simp del]

lemma exec_Nil [simp]: "exec s [] = s"
  by (simp add: exec_def)

lemma exec_Cons [simp]: "exec s (e # es) = exec (step s e) es"
  by (simp add: exec_def)

lemma exec_snoc: "exec s (es @ [e]) = step (exec s es) e"
  by (simp add: exec_def)

lemma exec_append: "exec s (es @ es') = exec (exec s es) es'"
  by (simp add: exec_def)

lemma exec_handed_out: "handed_out s \<Longrightarrow> handed_out (exec s es)"
  by (induction es arbitrary: s) (simp_all add: step_handed_out)

lemma exec_setup: "isBlocklistFilterSetup (fst s) \<Longrightarrow> isBlocklistFilterSetup (fst (exec s es))"
  by (induction es arbitrary: s) (simp_all add: step_setup)

lemma exec_ref: "blocklistFilter (fst (exec s es)) = blocklistFilter (fst s)"
  by (induction es arbitrary: s) (simp_all add: step_ref)

lemma downloadBuildBlocklist_config:
  "fst (snd (downloadBuildBlocklist h u ts nc parts)) =
     \<lparr>nodecount = (if nc \<noteq> 0 then nc else - 1), tdparts = (if parts \<noteq> 0 then parts else - 1)\<rparr>"
  by (simp add: downloadBuildBlocklist_def Let_def split: prod.splits)

lemma RethinkModule_builder:
  assumes "\<not> isBlocklistFilterSetup w"
    and "\<not> isBlocklistUnderConstruction w \<or> now - startTime w > workerTimeout p * 2"
  shows "RethinkModule w now h p =
     (w\<lparr>isBlocklistUnderConstruction := True, startTime := now,
        fetched := fetched w @ fst (downloadBuildBlocklist h (blocklistUrl p) (latestTimestamp p)
                                     (tdNodecount p) (tdParts p))\<rparr>,
      Downloading h
        (fst (snd (downloadBuildBlocklist h (blocklistUrl p) (latestTimestamp p)
                     (tdNodecount p) (tdParts p))))
        (snd (snd (downloadBuildBlocklist h (blocklistUrl p) (latestTimestamp p)
                     (tdNodecount p) (tdParts p)))))"
  using assms
  by (auto simp add: RethinkModule_def initBlocklistConstruction_def Let_def split: prod.splits)

section \<open>A part count or node count of zero\<close>

text \<open>
  Claim C8. For every request with \<^verbatim>\<open>tdParts = 0\<close> the build coerces the part count
  with \<^verbatim>\<open>tdParts || -1\<close>: the basic config that it builds has \<^verbatim>\<open>tdparts = -1\<close>, the trie
  is fetched as the single resource \<^verbatim>\<open>/td.txt\<close> (between the file tags and the rank
  directory) and not as a part \<^verbatim>\<open>/td00.txt\<close>, and a \<^verbatim>\<open>tdNodecount\<close> of \<open>0\<close> becomes
  \<^verbatim>\<open>nodecount = -1\<close>. The suspended builder keeps that basic config, and when its three
  downloads are there it calls the filter builder with exactly that config and stores
  it in the filter on success.
\<close>

theorem tdParts_zero_coerced:
  "fst (downloadBuildBlocklist h u ts nc 0) =
      [u @ ts @ ''/filetag.json'', u @ ts @ ''/td.txt'', u @ ts @ ''/rd.txt''] \<and>
   fst (snd (downloadBuildBlocklist h u ts nc 0)) =
      \<lparr>nodecount = (if nc = 0 then - 1 else nc), tdparts = - 1\<rparr> \<and>
   nodecount (fst (snd (downloadBuildBlocklist h u ts 0 parts))) = - 1 \<and>
   (tdParts p = 0 \<and> \<not> isBlocklistFilterSetup w \<and> \<not> isBlocklistUnderConstruction w \<longrightarrow>
      (\<exists>downloads. snd (RethinkModule w now h p) =
         Downloading h \<lparr>nodecount = (if tdNodecount p = 0 then - 1 else tdNodecount p),
                        tdparts = - 1\<rparr> downloads) \<and>
      fetched (fst (RethinkModule w now h p)) = fetched w @
        [blocklistUrl p @ latestTimestamp p @ ''/filetag.json'',
         blocklistUrl p @ latestTimestamp p @ ''/td.txt'',
         blocklistUrl p @ latestTimestamp p @ ''/rd.txt'']) \<and>
   resume w' (Downloading h c (at, Inr [d0, d1, d2])) =
     (case createBlocklistFilter h d1 d2 d0 c of
        Inl e \<Rightarrow> initBlocklistConstruction_catch (w'\<lparr>td := Some d1, rd := Some d2, ft := Some d0\<rparr>) e
      | Inr (t', ft') \<Rightarrow>
          (loadFilter (w'\<lparr>td := Some d1, rd := Some d2, ft := Some d0\<rparr>)
              \<lparr>resp_t = t', resp_ft = ft', resp_blocklistBasicConfig = c,
               resp_blocklistFileTag = d0\<rparr>
             \<lparr>isBlocklistUnderConstruction := False\<rparr>,
           Returned (emptyResponse\<lparr>data_blocklistFilter := Some (blocklistFilter w')\<rparr>)))"
proof -
  have sent: "fst (downloadBuildBlocklist h u ts nc 0) =
      [u @ ts @ ''/filetag.json'', u @ ts @ ''/td.txt'', u @ ts @ ''/rd.txt'']" for u ts nc
    by (simp add: downloadBuildBlocklist_sent makeTd_def fileFetch_def)
  have call: "(\<exists>downloads. snd (RethinkModule w now h p) =
         Downloading h \<lparr>nodecount = (if tdNodecount p = 0 then - 1 else tdNodecount p),
                        tdparts = - 1\<rparr> downloads) \<and>
      fetched (fst (RethinkModule w now h p)) = fetched w @
        [blocklistUrl p @ latestTimestamp p @ ''/filetag.json'',
         blocklistUrl p @ latestTimestamp p @ ''/td.txt'',
         blocklistUrl p @ latestTimestamp p @ ''/rd.txt'']"
    if "tdParts p = 0" "\<not> isBlocklistFilterSetup w" "\<not> isBlocklistUnderConstruction w"
    using that sent[of "blocklistUrl p" "latestTimestamp p" "tdNodecount p"]
    by (simp add: RethinkModule_builder downloadBuildBlocklist_config)
  have built: "resume w' (Downloading h c (at, Inr [d0, d1, d2])) =
     (case createBlocklistFilter h d1 d2 d0 c of
        Inl e \<Rightarrow> initBlocklistConstruction_catch (w'\<lparr>td := Some d1, rd := Some d2, ft := Some d0\<rparr>) e
      | Inr (t', ft') \<Rightarrow>
          (loadFilter (w'\<lparr>td := Some d1, rd := Some d2, ft := Some d0\<rparr>)
              \<lparr>resp_t = t', resp_ft = ft', resp_blocklistBasicConfig = c,
               resp_blocklistFileTag = d0\<rparr>
             \<lparr>isBlocklistUnderConstruction := False\<rparr>,
           Returned (emptyResponse\<lparr>data_blocklistFilter := Some (blocklistFilter w')\<rparr>)))"
    by (simp add: initBlocklistConstruction_settled_def downloadBuildBlocklist_built_def Let_def
          loadFilter_def split: sum.splits prod.splits)
  show ?thesis
    using sent call built by (simp add: downloadBuildBlocklist_config)
qed

theorem tdParts_zero_coerced_witness:
  "snd (RethinkModule constructor 0 host_up (param0\<lparr>tdParts := 0, tdNodecount := 0\<rparr>)) =
     Downloading host_up \<lparr>nodecount = - 1, tdparts = - 1\<rparr>
       (snd (snd (downloadBuildBlocklist host_up ''u/'' ''1'' 0 0))) \<and>
   fetched (fst (RethinkModule constructor 0 host_up (param0\<lparr>tdParts := 0, tdNodecount := 0\<rparr>))) =
     [''u/1/filetag.json'', ''u/1/td.txt'', ''u/1/rd.txt'']"
proof -
  have pre: "tdParts (param0\<lparr>tdParts := 0, tdNodecount := 0\<rparr>) = 0
      \<and> \<not> isBlocklistFilterSetup constructor \<and> \<not> isBlocklistUnderConstruction constructor"
    by (simp add: constructor_def isBlocklistFilterSetup_def new_BlocklistFilter_def)
  have "fetched (fst (RethinkModule constructor 0 host_up (param0\<lparr>tdParts := 0, tdNodecount := 0\<rparr>))) =
     [''u/1/filetag.json'', ''u/1/td.txt'', ''u/1/rd.txt'']"
    using tdParts_zero_coerced[of host_up "''u/''" "''1''" 0 0 "param0\<lparr>tdParts := 0, tdNodecount := 0\<rparr>"
        constructor 0] pre
    by (simp add: param0_def constructor_def)
  moreover have "snd (RethinkModule constructor 0 host_up (param0\<lparr>tdParts := 0, tdNodecount := 0\<rparr>)) =
     Downloading host_up \<lparr>nodecount = - 1, tdparts = - 1\<rparr>
       (snd (snd (downloadBuildBlocklist host_up ''u/'' ''1'' 0 0)))"
    using pre by (simp add: RethinkModule_builder downloadBuildBlocklist_config param0_def)
  ultimately show ?thesis by simp
qed


section \<open>Who becomes the builder\<close>

lemma fileFetch_json_sent: "fst (fileFetch h url ''json'') = [url]"
  by (simp add: fileFetch_def)

lemma downloadBuildBlocklist_eq:
  "downloadBuildBlocklist h u ts nc parts =
     ([u @ ts @ ''/filetag.json''] @ fst (makeTd h (u @ ts) (if parts \<noteq> 0 then parts else - 1))
        @ [u @ ts @ ''/rd.txt''],
      \<lparr>nodecount = (if nc \<noteq> 0 then nc else - 1), tdparts = (if parts \<noteq> 0 then parts else - 1)\<rparr>,
      Promise_all
        [snd (fileFetch h (u @ ts @ ''/filetag.json'') ''json''),
         snd (makeTd h (u @ ts) (if parts \<noteq> 0 then parts else - 1)),
         snd (fileFetch h (u @ ts @ ''/rd.txt'') ''buffer'')])"
  by (simp add: downloadBuildBlocklist_def fileFetch_json_sent fileFetch_buffer_sent Let_def
        case_prod_beta del: Promise_all.simps)

lemma RethinkModule_builder_eq:
  assumes "\<not> isBlocklistFilterSetup w"
    and "\<not> isBlocklistUnderConstruction w \<or> now - startTime w > 2 * workerTimeout p"
  shows "RethinkModule w now h p =
     (w\<lparr>isBlocklistUnderConstruction := True, startTime := now,
        fetched := fetched w @ [blocklistUrl p @ latestTimestamp p @ ''/filetag.json'']
          @ fst (makeTd h (blocklistUrl p @ latestTimestamp p)
                  (if tdParts p \<noteq> 0 then tdParts p else - 1))
          @ [blocklistUrl p @ latestTimestamp p @ ''/rd.txt'']\<rparr>,
      Downloading h
        \<lparr>nodecount = (if tdNodecount p \<noteq> 0 then tdNodecount p else - 1),
         tdparts = (if tdParts p \<noteq> 0 then tdParts p else - 1)\<rparr>
        (Promise_all
           [snd (fileFetch h (blocklistUrl p @ latestTimestamp p @ ''/filetag.json'') ''json''),
            snd (makeTd h (blocklistUrl p @ latestTimestamp p)
                   (if tdParts p \<noteq> 0 then tdParts p else - 1)),
            snd (fileFetch h (blocklistUrl p @ latestTimestamp p @ ''/rd.txt'') ''buffer'')]))"
proof -
  from assms(2) have b: "\<not> isBlocklistUnderConstruction w \<or> now - startTime w > workerTimeout p * 2"
    by (simp add: mult.commute)
  show ?thesis
    by (simp only: RethinkModule_builder[OF assms(1) b] downloadBuildBlocklist_eq fst_conv snd_conv)
qed

lemma Promise_all3:
  "Promise_all [(a0, Inr d0), (a1, Inr d1), (a2, Inr d2)] = (max a0 (max a1 (max a2 0)), Inr [d0, d1, d2])"
  by simp

lemma settled_loaded:
  assumes "snd d = Inr [d0, d1, d2]" "createBlocklistFilter h d1 d2 d0 c = Inr (t', f')"
  shows "initBlocklistConstruction_settled w h c d =
     (w\<lparr>td := Some d1, rd := Some d2, ft := Some d0,
        heap := (heap w)(blocklistFilter w :=
          \<lparr>bf_t = Some t', bf_ft = Some f', bf_blocklistBasicConfig = Some c,
           bf_blocklistFileTag = Some d0\<rparr>),
        isBlocklistUnderConstruction := False\<rparr>,
      Returned \<lparr>isException = False, r_exceptionStack = [], r_exceptionFrom = [],
                data_blocklistFilter = Some (blocklistFilter w)\<rparr>)"
  using assms
  by (simp add: initBlocklistConstruction_settled_def downloadBuildBlocklist_built_def Let_def
        loadFilter_def emptyResponse_def)

text \<open>
  Claim C4. A call made while the filter is not set up becomes the builder when no
  build is in progress, or when the build in progress was recorded as started more than
  \<open>2 \<times> workerTimeout\<close> before the current time. It does not wait: it raises the flag,
  records the current time as the new start time (the state is \<open>Building now\<close>), sends
  the requests of the whole build in this order (file tags, the trie as \<^verbatim>\<open>makeTd\<close>
  sends it for the coerced part count, rank directory), and is suspended at the join of
  these three promises, with the basic config of the coerced node count and part count.
  When it is resumed, in whatever world \<open>w2\<close>, with the three fulfilled and the filter
  builder returning, it stores the three payloads, loads the built filter, the config
  and the file tags into the wrapper's filter object, lowers the flag and returns the
  envelope that carries that filter: the state is \<open>Ready\<close>. In particular a call at
  \<open>T0 + 2W + \<epsilon>\<close> with \<open>\<epsilon> > 0\<close>, against a build started at \<open>T0\<close>, with \<open>workerTimeout = W\<close>,
  starts a fresh build in this way. (What a resumed builder does when a leg is rejected
  or the filter builder throws is the matter of claim C5.)
\<close>

theorem idle_or_stale_caller_builds:
  "(\<not> isBlocklistFilterSetup w \<and>
    (\<not> isBlocklistUnderConstruction w \<or> now - startTime w > 2 * workerTimeout p) \<longrightarrow>
      RethinkModule w now h p =
        (w\<lparr>isBlocklistUnderConstruction := True, startTime := now,
           fetched := fetched w @ [blocklistUrl p @ latestTimestamp p @ ''/filetag.json'']
             @ fst (makeTd h (blocklistUrl p @ latestTimestamp p)
                     (if tdParts p \<noteq> 0 then tdParts p else - 1))
             @ [blocklistUrl p @ latestTimestamp p @ ''/rd.txt'']\<rparr>,
         Downloading h
           \<lparr>nodecount = (if tdNodecount p \<noteq> 0 then tdNodecount p else - 1),
            tdparts = (if tdParts p \<noteq> 0 then tdParts p else - 1)\<rparr>
           (Promise_all
              [snd (fileFetch h (blocklistUrl p @ latestTimestamp p @ ''/filetag.json'') ''json''),
               snd (makeTd h (blocklistUrl p @ latestTimestamp p)
                      (if tdParts p \<noteq> 0 then tdParts p else - 1)),
               snd (fileFetch h (blocklistUrl p @ latestTimestamp p @ ''/rd.txt'') ''buffer'')])) \<and>
      build_state (fst (RethinkModule w now h p)) = Building now \<and>
      (snd (fileFetch h (blocklistUrl p @ latestTimestamp p @ ''/filetag.json'') ''json'') = (a0, Inr d0) \<and>
       snd (makeTd h (blocklistUrl p @ latestTimestamp p)
              (if tdParts p \<noteq> 0 then tdParts p else - 1)) = (a1, Inr d1) \<and>
       snd (fileFetch h (blocklistUrl p @ latestTimestamp p @ ''/rd.txt'') ''buffer'') = (a2, Inr d2) \<and>
       createBlocklistFilter h d1 d2 d0
         \<lparr>nodecount = (if tdNodecount p \<noteq> 0 then tdNodecount p else - 1),
          tdparts = (if tdParts p \<noteq> 0 then tdParts p else - 1)\<rparr> = Inr (t', f') \<longrightarrow>
         resume w2 (snd (RethinkModule w now h p)) =
           (w2\<lparr>td := Some d1, rd := Some d2, ft := Some d0,
               heap := (heap w2)(blocklistFilter w2 :=
                 \<lparr>bf_t = Some t', bf_ft = Some f',
                  bf_blocklistBasicConfig =
                    Some \<lparr>nodecount = (if tdNodecount p \<noteq> 0 then tdNodecount p else - 1),
                          tdparts = (if tdParts p \<noteq> 0 then tdParts p else - 1)\<rparr>,
                  bf_blocklistFileTag = Some d0\<rparr>),
               isBlocklistUnderConstruction := False\<rparr>,
            Returned \<lparr>isException = False, r_exceptionStack = [], r_exceptionFrom = [],
                      data_blocklistFilter = Some (blocklistFilter w2)\<rparr>) \<and>
         build_state (fst (resume w2 (snd (RethinkModule w now h p)))) = Ready)) \<and>
   (\<not> isBlocklistFilterSetup w \<and> 0 < eps \<longrightarrow>
      RethinkModule w (startTime w + 2 * workerTimeout p + eps) h p =
        (w\<lparr>isBlocklistUnderConstruction := True,
           startTime := startTime w + 2 * workerTimeout p + eps,
           fetched := fetched w @ [blocklistUrl p @ latestTimestamp p @ ''/filetag.json'']
             @ fst (makeTd h (blocklistUrl p @ latestTimestamp p)
                     (if tdParts p \<noteq> 0 then tdParts p else - 1))
             @ [blocklistUrl p @ latestTimestamp p @ ''/rd.txt'']\<rparr>,
         Downloading h
           \<lparr>nodecount = (if tdNodecount p \<noteq> 0 then tdNodecount p else - 1),
            tdparts = (if tdParts p \<noteq> 0 then tdParts p else - 1)\<rparr>
           (Promise_all
              [snd (fileFetch h (blocklistUrl p @ latestTimestamp p @ ''/filetag.json'') ''json''),
               snd (makeTd h (blocklistUrl p @ latestTimestamp p)
                      (if tdParts p \<noteq> 0 then tdParts p else - 1)),
               snd (fileFetch h (blocklistUrl p @ latestTimestamp p @ ''/rd.txt'') ''buffer'')])) \<and>
      build_state (fst (RethinkModule w (startTime w + 2 * workerTimeout p + eps) h p)) =
        Building (startTime w + 2 * workerTimeout p + eps))"
proof -
  let ?c = "\<lparr>nodecount = (if tdNodecount p \<noteq> 0 then tdNodecount p else - 1),
            tdparts = (if tdParts p \<noteq> 0 then tdParts p else - 1)\<rparr>"
  let ?base = "blocklistUrl p @ latestTimestamp p"
  let ?n = "if tdParts p \<noteq> 0 then tdParts p else - 1"
  let ?d = "Promise_all
              [snd (fileFetch h (blocklistUrl p @ latestTimestamp p @ ''/filetag.json'') ''json''),
               snd (makeTd h ?base ?n),
               snd (fileFetch h (blocklistUrl p @ latestTimestamp p @ ''/rd.txt'') ''buffer'')]"
  let ?start = "\<lambda>t. (w\<lparr>isBlocklistUnderConstruction := True, startTime := t,
           fetched := fetched w @ [blocklistUrl p @ latestTimestamp p @ ''/filetag.json'']
             @ fst (makeTd h ?base ?n) @ [blocklistUrl p @ latestTimestamp p @ ''/rd.txt'']\<rparr>,
         Downloading h ?c ?d)"
  have start: "RethinkModule w t h p = ?start t \<and> build_state (fst (RethinkModule w t h p)) = Building t"
    if c: "\<not> isBlocklistFilterSetup w"
      and a: "\<not> isBlocklistUnderConstruction w \<or> t - startTime w > 2 * workerTimeout p" for t
  proof -
    have e: "RethinkModule w t h p = ?start t"
      using RethinkModule_builder_eq[OF c a, of h] by simp
    have "build_state (fst (?start t)) = Building t"
      using c by (simp add: build_state_def isBlocklistFilterSetup_def)
    then show ?thesis using e by simp
  qed
  have construct: "resume w2 (snd (RethinkModule w now h p)) =
           (w2\<lparr>td := Some d1, rd := Some d2, ft := Some d0,
               heap := (heap w2)(blocklistFilter w2 :=
                 \<lparr>bf_t = Some t', bf_ft = Some f', bf_blocklistBasicConfig = Some ?c,
                  bf_blocklistFileTag = Some d0\<rparr>),
               isBlocklistUnderConstruction := False\<rparr>,
            Returned \<lparr>isException = False, r_exceptionStack = [], r_exceptionFrom = [],
                      data_blocklistFilter = Some (blocklistFilter w2)\<rparr>) \<and>
         build_state (fst (resume w2 (snd (RethinkModule w now h p)))) = Ready"
    if c: "\<not> isBlocklistFilterSetup w"
      and a: "\<not> isBlocklistUnderConstruction w \<or> now - startTime w > 2 * workerTimeout p"
      and l0: "snd (fileFetch h (blocklistUrl p @ latestTimestamp p @ ''/filetag.json'') ''json'') = (a0, Inr d0)"
      and l1: "snd (makeTd h ?base ?n) = (a1, Inr d1)"
      and l2: "snd (fileFetch h (blocklistUrl p @ latestTimestamp p @ ''/rd.txt'') ''buffer'') = (a2, Inr d2)"
      and b: "createBlocklistFilter h d1 d2 d0 ?c = Inr (t', f')"
  proof -
    have k: "snd (RethinkModule w now h p) = Downloading h ?c ?d"
      using start[OF c a] by simp
    have d: "snd ?d = Inr [d0, d1, d2]"
      by (simp only: l0 l1 l2 Promise_all3 snd_conv)
    have r: "resume w2 (Downloading h ?c ?d) =
           (w2\<lparr>td := Some d1, rd := Some d2, ft := Some d0,
               heap := (heap w2)(blocklistFilter w2 :=
                 \<lparr>bf_t = Some t', bf_ft = Some f', bf_blocklistBasicConfig = Some ?c,
                  bf_blocklistFileTag = Some d0\<rparr>),
               isBlocklistUnderConstruction := False\<rparr>,
            Returned \<lparr>isException = False, r_exceptionStack = [], r_exceptionFrom = [],
                      data_blocklistFilter = Some (blocklistFilter w2)\<rparr>)"
      using settled_loaded[OF d b, of w2] by simp
    have "build_state (fst (resume w2 (Downloading h ?c ?d))) = Ready"
      by (simp only: r fst_conv) (simp add: build_state_def isBlocklistFilterSetup_def emptyObj_def)
    then show ?thesis using r k by simp
  qed
  have late: "RethinkModule w (startTime w + 2 * workerTimeout p + eps) h p =
        ?start (startTime w + 2 * workerTimeout p + eps) \<and>
      build_state (fst (RethinkModule w (startTime w + 2 * workerTimeout p + eps) h p)) =
        Building (startTime w + 2 * workerTimeout p + eps)"
    if ns: "\<not> isBlocklistFilterSetup w" and pos: "0 < eps"
  proof -
    have "\<not> isBlocklistUnderConstruction w
        \<or> startTime w + 2 * workerTimeout p + eps - startTime w > 2 * workerTimeout p"
      using pos by simp
    from start[OF ns this] show ?thesis .
  qed
  show ?thesis
  proof (intro conjI impI)
    assume h1: "\<not> isBlocklistFilterSetup w \<and>
      (\<not> isBlocklistUnderConstruction w \<or> now - startTime w > 2 * workerTimeout p)"
    then show "RethinkModule w now h p = ?start now" using start[of now] by blast
    from h1 show "build_state (fst (RethinkModule w now h p)) = Building now"
      using start[of now] by blast
    assume h2: "snd (fileFetch h (blocklistUrl p @ latestTimestamp p @ ''/filetag.json'') ''json'') = (a0, Inr d0) \<and>
       snd (makeTd h ?base ?n) = (a1, Inr d1) \<and>
       snd (fileFetch h (blocklistUrl p @ latestTimestamp p @ ''/rd.txt'') ''buffer'') = (a2, Inr d2) \<and>
       createBlocklistFilter h d1 d2 d0 ?c = Inr (t', f')"
    from h1 h2 construct
    show "resume w2 (snd (RethinkModule w now h p)) =
           (w2\<lparr>td := Some d1, rd := Some d2, ft := Some d0,
               heap := (heap w2)(blocklistFilter w2 :=
                 \<lparr>bf_t = Some t', bf_ft = Some f', bf_blocklistBasicConfig = Some ?c,
                  bf_blocklistFileTag = Some d0\<rparr>),
               isBlocklistUnderConstruction := False\<rparr>,
            Returned \<lparr>isException = False, r_exceptionStack = [], r_exceptionFrom = [],
                      data_blocklistFilter = Some (blocklistFilter w2)\<rparr>)"
      by blast
    from h1 h2 construct
    show "build_state (fst (resume w2 (snd (RethinkModule w now h p)))) = Ready" by blast
  next
    assume h3: "\<not> isBlocklistFilterSetup w \<and> 0 < eps"
    then show "RethinkModule w (startTime w + 2 * workerTimeout p + eps) h p =
        ?start (startTime w + 2 * workerTimeout p + eps)" using late by blast
    from h3 show "build_state (fst (RethinkModule w (startTime w + 2 * workerTimeout p + eps) h p)) =
        Building (startTime w + 2 * workerTimeout p + eps)" using late by blast
  qed
qed

theorem idle_or_stale_caller_builds_witness:
  "build_state world_stale = Building 1000 \<and>
   RethinkModule world_stale 1021 host_up param0 =
     (world_stale\<lparr>startTime := 1021,
        fetched := [''u/1/filetag.json'', ''u/1/td.txt'', ''u/1/rd.txt'']\<rparr>,
      Downloading host_up config0
        (Promise_all [(1, Inr (Json (JObj []))), (1, Inr (Buffer [9])), (1, Inr (Buffer [9]))])) \<and>
   build_state (fst (RethinkModule world_stale 1021 host_up param0)) = Building 1021 \<and>
   build_state (fst (resume (fst (RethinkModule world_stale 1021 host_up param0))
      (snd (RethinkModule world_stale 1021 host_up param0)))) = Ready \<and>
   build_state (fst (RethinkModule world_stale (startTime world_stale + 2 * workerTimeout param0 + 1)
      host_up param0)) = Building 1021"
proof -
  have pre: "\<not> isBlocklistFilterSetup world_stale \<and>
   (\<not> isBlocklistUnderConstruction world_stale
      \<or> 1021 - startTime world_stale > 2 * workerTimeout param0)"
    by (simp add: world_stale_def constructor_def isBlocklistFilterSetup_def
        new_BlocklistFilter_def param0_def)
  have st: "build_state world_stale = Building 1000"
    by (simp add: world_stale_def constructor_def isBlocklistFilterSetup_def
        new_BlocklistFilter_def build_state_def)
  have l0: "snd (fileFetch host_up (blocklistUrl param0 @ latestTimestamp param0 @ ''/filetag.json'')
      ''json'') = (1, Inr (Json (JObj [])))"
    by (simp add: fileFetch_def host_up_def response_ok_def param0_def)
  have l1: "snd (makeTd host_up (blocklistUrl param0 @ latestTimestamp param0)
      (if tdParts param0 \<noteq> 0 then tdParts param0 else - 1)) = (1, Inr (Buffer [9]))"
    by (simp add: makeTd_def fileFetch_def host_up_def response_ok_def param0_def)
  have l2: "snd (fileFetch host_up (blocklistUrl param0 @ latestTimestamp param0 @ ''/rd.txt'')
      ''buffer'') = (1, Inr (Buffer [9]))"
    by (simp add: fileFetch_def host_up_def response_ok_def param0_def)
  have b: "createBlocklistFilter host_up (Buffer [9]) (Buffer [9]) (Json (JObj []))
      \<lparr>nodecount = (if tdNodecount param0 \<noteq> 0 then tdNodecount param0 else - 1),
       tdparts = (if tdParts param0 \<noteq> 0 then tdParts param0 else - 1)\<rparr> = Inr (Tags 1, FrozenTrie 1)"
    by (simp add: host_up_def)
  note inst = idle_or_stale_caller_builds[where w = world_stale and now = 1021 and p = param0
      and h = host_up and ?a0.0 = 1 and ?a1.0 = 1 and ?a2.0 = 1 and ?d0.0 = "Json (JObj [])"
      and ?d1.0 = "Buffer [9]" and ?d2.0 = "Buffer [9]" and t' = "Tags 1" and f' = "FrozenTrie 1"
      and ?w2.0 = "fst (RethinkModule world_stale 1021 host_up param0)" and eps = 1]
  from inst pre have start: "RethinkModule world_stale 1021 host_up param0 =
        (world_stale\<lparr>isBlocklistUnderConstruction := True, startTime := 1021,
           fetched := fetched world_stale @ [blocklistUrl param0 @ latestTimestamp param0 @ ''/filetag.json'']
             @ fst (makeTd host_up (blocklistUrl param0 @ latestTimestamp param0)
                     (if tdParts param0 \<noteq> 0 then tdParts param0 else - 1))
             @ [blocklistUrl param0 @ latestTimestamp param0 @ ''/rd.txt'']\<rparr>,
         Downloading host_up
           \<lparr>nodecount = (if tdNodecount param0 \<noteq> 0 then tdNodecount param0 else - 1),
            tdparts = (if tdParts param0 \<noteq> 0 then tdParts param0 else - 1)\<rparr>
           (Promise_all
              [snd (fileFetch host_up (blocklistUrl param0 @ latestTimestamp param0 @ ''/filetag.json'') ''json''),
               snd (makeTd host_up (blocklistUrl param0 @ latestTimestamp param0)
                      (if tdParts param0 \<noteq> 0 then tdParts param0 else - 1)),
               snd (fileFetch host_up (blocklistUrl param0 @ latestTimestamp param0 @ ''/rd.txt'') ''buffer'')]))"
    and bs: "build_state (fst (RethinkModule world_stale 1021 host_up param0)) = Building 1021"
    by blast+
  from inst pre l0 l1 l2 b
  have rdy: "build_state (fst (resume (fst (RethinkModule world_stale 1021 host_up param0))
      (snd (RethinkModule world_stale 1021 host_up param0)))) = Ready"
    by blast
  have pre2: "\<not> isBlocklistFilterSetup world_stale \<and> (0::int) < 1" using pre by simp
  from inst pre2
  have "build_state (fst (RethinkModule world_stale (startTime world_stale + 2 * workerTimeout param0 + 1)
      host_up param0)) = Building (startTime world_stale + 2 * workerTimeout param0 + 1)"
    by blast
  then have late: "build_state (fst (RethinkModule world_stale (startTime world_stale + 2 * workerTimeout param0 + 1)
      host_up param0)) = Building 1021"
    by (simp add: world_stale_def param0_fields)
  have sent: "fst (makeTd host_up (blocklistUrl param0 @ latestTimestamp param0)
                     (if tdParts param0 \<noteq> 0 then tdParts param0 else - 1)) = [''u/1/td.txt'']"
    by (simp add: makeTd_def fileFetch_def param0_def)
  have start': "RethinkModule world_stale 1021 host_up param0 =
     (world_stale\<lparr>startTime := 1021,
        fetched := [''u/1/filetag.json'', ''u/1/td.txt'', ''u/1/rd.txt'']\<rparr>,
      Downloading host_up config0
        (Promise_all [(1, Inr (Json (JObj []))), (1, Inr (Buffer [9])), (1, Inr (Buffer [9]))]))"
    by (simp only: start l0 l1 l2 sent)
       (simp add: world_stale_def constructor_def param0_def config0_def)
  show ?thesis using st start' bs rdy late by (intro conjI)
qed


lemma commas3: "commas [a, b, c] = a @ '','' @ b @ '','' @ c"
  by simp

lemma quoteJSONString_plain:
  "\<forall>c \<in> set s. escape_char c = [c] \<Longrightarrow> quoteJSONString s = [CHR 0x22] @ s @ [CHR 0x22]"
proof -
  assume a: "\<forall>c \<in> set s. escape_char c = [c]"
  then have "concat (map escape_char s) = s" by (induction s) auto
  then show ?thesis by (simp add: quoteJSONString_def)
qed

section \<open>A response that is not ok\<close>

text \<open>
  Claim C9, as amended. When the response to the request of a \<^verbatim>\<open>fileFetch\<close> is not ok,
  the request is sent once and not again, and the promise is rejected with an error
  whose message is the JSON text of the array \<^verbatim>\<open>[url, res, "fileFetch fail"]\<close>. That
  text holds the URL as a JSON string, so the URL itself whenever none of its
  characters needs an escape, and it holds, of the response, what \<^verbatim>\<open>JSON.stringify\<close>
  prints of it: its own enumerable properties. Any join that this promise is part of
  is rejected, which aborts the build attempt.
\<close>

theorem fileFetch_not_ok:
  "(typ = ''buffer'' \<or> typ = ''json'') \<and> fetch h url = (at, Inr res) \<and> \<not> ok res \<longrightarrow>
     fileFetch h url typ =
       ([url], (at, Inl (Error (''['' @ quoteJSONString url @ '','' @ stringify_Response res @ '',''
                                  @ quoteJSONString ''fileFetch fail'' @ '']'')))) \<and>
     ((\<forall>c \<in> set url. escape_char c = [c]) \<longrightarrow>
        (\<forall>e. snd (snd (fileFetch h url typ)) = Inl e \<longrightarrow> sublist url (message e))) \<and>
     (\<forall>e. snd (snd (fileFetch h url typ)) = Inl e \<longrightarrow> sublist (stringify_Response res) (message e)) \<and>
     isl (snd (Promise_all (ps @ [snd (fileFetch h url typ)] @ qs)))"
proof
  assume a: "(typ = ''buffer'' \<or> typ = ''json'') \<and> fetch h url = (at, Inr res) \<and> \<not> ok res"
  let ?m = "''['' @ quoteJSONString url @ '','' @ stringify_Response res @ '',''
                                  @ quoteJSONString ''fileFetch fail'' @ '']''"
  have eq: "fileFetch h url typ = ([url], (at, Inl (Error ?m)))"
    using a by (auto simp: fileFetch_def stringify_fail_def)
  have url: "sublist url ?m" if "\<forall>c \<in> set url. escape_char c = [c]"
  proof -
    have "?m = (''['' @ [CHR 0x22]) @ url @ ([CHR 0x22] @ '','' @ stringify_Response res @ '',''
                                  @ quoteJSONString ''fileFetch fail'' @ '']'')"
      by (simp add: quoteJSONString_plain[OF that])
    then show ?thesis unfolding sublist_def by blast
  qed
  have res: "sublist (stringify_Response res) ?m"
  proof -
    have "?m = (''['' @ quoteJSONString url @ '','') @ stringify_Response res @ ('',''
                                  @ quoteJSONString ''fileFetch fail'' @ '']'')"
      by simp
    then show ?thesis unfolding sublist_def by blast
  qed
  have rej: "isl (snd (Promise_all (ps @ [snd (fileFetch h url typ)] @ qs)))"
    by (simp add: Promise_all_isl_iff eq)
  show "fileFetch h url typ = ([url], (at, Inl (Error ?m))) \<and>
     ((\<forall>c \<in> set url. escape_char c = [c]) \<longrightarrow>
        (\<forall>e. snd (snd (fileFetch h url typ)) = Inl e \<longrightarrow> sublist url (message e))) \<and>
     (\<forall>e. snd (snd (fileFetch h url typ)) = Inl e \<longrightarrow> sublist (stringify_Response res) (message e)) \<and>
     isl (snd (Promise_all (ps @ [snd (fileFetch h url typ)] @ qs)))"
    using eq url res rej by auto
qed

lemma fail_404:
  "fileFetch host_down ''u/1/rd.txt'' ''buffer'' =
     ([''u/1/rd.txt''],
      (1, Inl (Error ([CHR ''['', CHR 0x22] @ ''u/1/rd.txt'' @ [CHR 0x22] @ '',{},''
                        @ [CHR 0x22] @ ''fileFetch fail'' @ [CHR 0x22] @ '']''))))"
  by (simp add: fileFetch_def host_down_def response_404_def stringify_fail_def
        stringify_Response_def quoteJSONString_def escape_char_def)

theorem fileFetch_not_ok_witness:
  "fileFetch host_down ''u/1/rd.txt'' ''buffer'' =
     ([''u/1/rd.txt''],
      (1, Inl (Error ([CHR ''['', CHR 0x22] @ ''u/1/rd.txt'' @ [CHR 0x22] @ '',{},''
                        @ [CHR 0x22] @ ''fileFetch fail'' @ [CHR 0x22] @ '']'')))) \<and>
   sublist ''u/1/rd.txt''
     ([CHR ''['', CHR 0x22] @ ''u/1/rd.txt'' @ [CHR 0x22] @ '',{},''
                        @ [CHR 0x22] @ ''fileFetch fail'' @ [CHR 0x22] @ '']'')"
proof -
  have pre: "(''buffer'' = ''buffer'' \<or> ''buffer'' = ''json'')
      \<and> fetch host_down ''u/1/rd.txt'' = (1, Inr response_404) \<and> \<not> ok response_404"
    by (simp add: host_down_def response_404_def)
  have plain: "\<forall>c \<in> set ''u/1/rd.txt''. escape_char c = [c]"
    by (simp add: escape_char_def)
  from pre fileFetch_not_ok[of "''buffer''" host_down "''u/1/rd.txt''" 1 response_404]
  have one: "fileFetch host_down ''u/1/rd.txt'' ''buffer'' =
     ([''u/1/rd.txt''],
      (1, Inl (Error ([CHR ''['', CHR 0x22] @ ''u/1/rd.txt'' @ [CHR 0x22] @ '',{},''
                        @ [CHR 0x22] @ ''fileFetch fail'' @ [CHR 0x22] @ '']''))))"
    by (simp add: response_404_def stringify_Response_def quoteJSONString_def escape_char_def)
  from pre plain fileFetch_not_ok[of "''buffer''" host_down "''u/1/rd.txt''" 1 response_404]
  have "\<forall>e. snd (snd (fileFetch host_down ''u/1/rd.txt'' ''buffer'')) = Inl e
          \<longrightarrow> sublist ''u/1/rd.txt'' (message e)"
    by blast
  then have two: "sublist ''u/1/rd.txt''
     ([CHR ''['', CHR 0x22] @ ''u/1/rd.txt'' @ [CHR 0x22] @ '',{},''
                        @ [CHR 0x22] @ ''fileFetch fail'' @ [CHR 0x22] @ '']'')"
    unfolding one by simp
  show ?thesis using one two by (rule conjI)
qed

text \<open>
  The claim as stated fails for a response of the Fetch standard, which has no
  enumerable property of its own: the status is \<open>404\<close>, the message is
  \<^verbatim>\<open>["u/1/rd.txt",{},"fileFetch fail"]\<close>, and \<open>404\<close> does not occur in it.
\<close>

theorem status_not_in_message_counterexample:
  "status response_404 = 404 \<and> \<not> ok response_404 \<and>
   fetch host_down ''u/1/rd.txt'' = (1, Inr response_404) \<and>
   snd (snd (fileFetch host_down ''u/1/rd.txt'' ''buffer'')) =
     Inl (Error ([CHR ''['', CHR 0x22] @ ''u/1/rd.txt'' @ [CHR 0x22] @ '',{},''
                        @ [CHR 0x22] @ ''fileFetch fail'' @ [CHR 0x22] @ '']'')) \<and>
   \<not> sublist (String_of 404)
       ([CHR ''['', CHR 0x22] @ ''u/1/rd.txt'' @ [CHR 0x22] @ '',{},''
                        @ [CHR 0x22] @ ''fileFetch fail'' @ [CHR 0x22] @ '']'')"
proof -
  have s: "String_of 404 = ''404''"
    by (simp add: String_of_def digits.simps digit_char_def)
  have n: "\<not> sublist ''404''
       ([CHR ''['', CHR 0x22] @ ''u/1/rd.txt'' @ [CHR 0x22] @ '',{},''
                        @ [CHR 0x22] @ ''fileFetch fail'' @ [CHR 0x22] @ '']'')"
    by (simp add: sublist_Cons_right)
  show ?thesis
    using s n by (simp add: fail_404) (simp add: host_down_def response_404_def)
qed

section \<open>Once ready, always ready\<close>

text \<open>
  Claim C1. Take any run of calls on a new wrapper in which some call has returned a
  response that carries a filter, and let the run go on in any way. Every call made
  afterwards, whatever its time, host and parameter, returns at once, without
  suspending: its envelope has \<open>isException = False\<close> and empty failure fields, its
  \<open>data_blocklistFilter\<close> is the same reference as in the earlier response, which is
  the reference of the wrapper's one filter object, and the call leaves the shared state
  as it found it; in particular it sends no request.
\<close>

theorem acquire_idempotent_once_ready:
  "Returned r \<in> set (snd (exec (constructor, []) es)) \<and> data_blocklistFilter r = Some f \<longrightarrow>
   RethinkModule (fst (exec (exec (constructor, []) es) es')) now h p =
     (fst (exec (exec (constructor, []) es) es'),
      Returned \<lparr>isException = False, r_exceptionStack = [], r_exceptionFrom = [],
                data_blocklistFilter = Some f\<rparr>) \<and>
   f = blocklistFilter (fst (exec (exec (constructor, []) es) es')) \<and>
   fetched (fst (RethinkModule (fst (exec (exec (constructor, []) es) es')) now h p)) =
     fetched (fst (exec (exec (constructor, []) es) es'))"
proof
  let ?s = "exec (constructor, []) es"
  let ?w = "fst (exec ?s es')"
  assume a: "Returned r \<in> set (snd ?s) \<and> data_blocklistFilter r = Some f"
  have "handed_out (constructor, [])" by (simp add: handed_out_def)
  then have "handed_out ?s" by (rule exec_handed_out)
  with a have f: "f = blocklistFilter (fst ?s)" and rdy: "isBlocklistFilterSetup (fst ?s)"
    unfolding handed_out_def by blast+
  have rdy': "isBlocklistFilterSetup ?w" using rdy by (rule exec_setup)
  have f': "f = blocklistFilter ?w" using f by (simp add: exec_ref)
  show "RethinkModule ?w now h p =
     (?w, Returned \<lparr>isException = False, r_exceptionStack = [], r_exceptionFrom = [],
                data_blocklistFilter = Some f\<rparr>) \<and>
   f = blocklistFilter ?w \<and> fetched (fst (RethinkModule ?w now h p)) = fetched ?w"
    using RethinkModule_ready[OF rdy', of now h p] f' by (simp add: emptyResponse_def)
qed


lemmas run_defs =
  step_Call step_Resume RethinkModule_def initBlocklistConstruction_def
  initBlocklistConstruction_settled_def initBlocklistConstruction_catch_def
  downloadBuildBlocklist_def downloadBuildBlocklist_built_def loadFilter_def
  makeTd_def fileFetch_def wait_loop_def timeout_response_def
  isBlocklistFilterSetup_def emptyObj_def emptyResponse_def errResponse_def
  constructor_def new_BlocklistFilter_def host_up_def host_down_def response_ok_def
  response_404_def param0_def Let_def

lemma first_build_returns:
  "snd (exec (constructor, []) [Call 0 host_up param0, Resume 0]) =
     [Returned \<lparr>isException = False, r_exceptionStack = [], r_exceptionFrom = [],
                data_blocklistFilter = Some 0\<rparr>]"
  by (simp add: run_defs)

theorem acquire_idempotent_once_ready_witness:
  "RethinkModule
     (fst (exec (exec (constructor, []) [Call 0 host_up param0, Resume 0])
             [Call 5 host_down param0]))
     7 host_down (param0\<lparr>tdParts := 3\<rparr>) =
   (fst (exec (exec (constructor, []) [Call 0 host_up param0, Resume 0])
             [Call 5 host_down param0]),
    Returned \<lparr>isException = False, r_exceptionStack = [], r_exceptionFrom = [],
              data_blocklistFilter = Some 0\<rparr>)"
proof -
  have "Returned \<lparr>isException = False, r_exceptionStack = [], r_exceptionFrom = [],
                data_blocklistFilter = Some 0\<rparr>
          \<in> set (snd (exec (constructor, []) [Call 0 host_up param0, Resume 0]))
        \<and> data_blocklistFilter \<lparr>isException = False, r_exceptionStack = [], r_exceptionFrom = [],
                data_blocklistFilter = Some 0\<rparr> = Some 0"
    unfolding first_build_returns by simp
  with acquire_idempotent_once_ready[where es = "[Call 0 host_up param0, Resume 0]" and f = 0
      and es' = "[Call 5 host_down param0]" and now = 7 and h = host_down
      and p = "param0\<lparr>tdParts := 3\<rparr>"]
  show ?thesis by blast
qed

section \<open>Failures that a build records\<close>

lemma settled_success_fields:
  assumes "snd (initBlocklistConstruction_settled w h c d) = Returned r" "\<not> isException r"
  shows "exceptionFrom (fst (initBlocklistConstruction_settled w h c d)) = exceptionFrom w \<and>
         exceptionStack (fst (initBlocklistConstruction_settled w h c d)) = exceptionStack w"
proof (cases rule: settled_cases[of w h c d])
  case (failed w' e)
  then show ?thesis using assms by (auto simp: catch_frame errResponse_def)
next
  case (loaded w' bl)
  then show ?thesis by (simp add: loadFilter_frame)
qed

lemma settled_failure_fields:
  assumes "snd (initBlocklistConstruction_settled w h c d) = Returned r" "isException r"
  shows "exceptionFrom (fst (initBlocklistConstruction_settled w h c d)) = r_exceptionFrom r \<and>
         exceptionStack (fst (initBlocklistConstruction_settled w h c d)) = r_exceptionStack r \<and>
         r_exceptionFrom r = ''initBlocklistConstruction''"
proof (cases rule: settled_cases[of w h c d])
  case (failed w' e)
  then show ?thesis using assms by (auto simp: catch_frame errResponse_def)
next
  case (loaded w' bl)
  then show ?thesis using assms by (auto simp: emptyResponse_def)
qed

lemma settled_returns: "\<exists>r. snd (initBlocklistConstruction_settled w h c d) = Returned r"
  by (cases rule: settled_cases[of w h c d]) (simp_all add: catch_frame)

lemma settled_From_kept:
  "exceptionFrom w \<noteq> [] \<Longrightarrow> exceptionFrom (fst (initBlocklistConstruction_settled w h c d)) \<noteq> []"
  by (cases rule: settled_cases[of w h c d]) (simp_all add: catch_frame loadFilter_frame)

lemma step_fields:
  "\<not> build_fails s e \<Longrightarrow>
   exceptionFrom (fst (step s e)) = exceptionFrom (fst s) \<and>
   exceptionStack (fst (step s e)) = exceptionStack (fst s)"
proof (cases s)
  case (Pair w ts)
  assume nf: "\<not> build_fails s e"
  show ?thesis
  proof (cases e)
    case (Call now h p)
    then show ?thesis using Pair by (simp only: step_Call fst_conv RethinkModule_frame)
  next
    case (Resume i)
    show ?thesis
    proof (cases "i < length ts")
      case False
      then show ?thesis using Pair Resume by (simp only: step_Resume if_False)
    next
      case True
      show ?thesis
      proof (cases "ts ! i")
        case (Downloading h c d)
        obtain r where r: "snd (initBlocklistConstruction_settled w h c d) = Returned r"
          using settled_returns by blast
        then have "\<not> isException r"
          using nf Pair Resume True Downloading by (simp add: build_fails_def)
        then show ?thesis
          using settled_success_fields[OF r] Pair Resume True Downloading
          by (simp add: step_Resume)
      next
        case (Sleeping p n)
        then show ?thesis using Pair Resume True by (simp add: step_Resume)
      next
        case (Returned r)
        then show ?thesis using Pair Resume True by (simp add: step_Resume)
      qed
    qed
  qed
qed

lemma exec_fields:
  "no_new_failure s es \<Longrightarrow>
   exceptionFrom (fst (exec s es)) = exceptionFrom (fst s) \<and>
   exceptionStack (fst (exec s es)) = exceptionStack (fst s)"
  by (induction es arbitrary: s) (simp_all add: step_fields)

lemma resume_From_kept: "exceptionFrom w \<noteq> [] \<Longrightarrow> exceptionFrom (fst (resume w k)) \<noteq> []"
  by (cases k) (simp_all add: settled_From_kept)

lemma step_From_kept: "exceptionFrom (fst s) \<noteq> [] \<Longrightarrow> exceptionFrom (fst (step s e)) \<noteq> []"
  by (cases s; cases e) (simp_all add: step_Call step_Resume RethinkModule_frame resume_From_kept)

lemma exec_From_kept: "exceptionFrom (fst s) \<noteq> [] \<Longrightarrow> exceptionFrom (fst (exec s es)) \<noteq> []"
  by (induction es arbitrary: s) (simp_all add: step_From_kept)

section \<open>A waiter whose budget runs out\<close>

lemma run_task_wait_loop:
  "(\<forall>j. k \<le> j \<and> j < k + nat ((fetchTimeout p - waited + 49) div 50) \<longrightarrow> \<not> isBlocklistFilterSetup (obs j)) \<Longrightarrow>
   run_task obs k (wait_loop (obs k) p waited) =
     timeout_response (obs (k + nat ((fetchTimeout p - waited + 49) div 50)))
       (waited + 50 * int (nat ((fetchTimeout p - waited + 49) div 50)))"
proof (induction "nat (fetchTimeout p - waited)" arbitrary: k waited rule: less_induct)
  case less
  let ?n = "nat ((fetchTimeout p - waited + 49) div 50)"
  show ?case
  proof (cases "waited < fetchTimeout p")
    case False
    then have "?n = 0" by simp
    then show ?thesis using False by (simp add: wait_loop_def)
  next
    case True
    let ?n' = "nat ((fetchTimeout p - (waited + 50) + 49) div 50)"
    have n: "?n = Suc ?n'"
    proof -
      have "(fetchTimeout p - waited + 49) div 50 = (fetchTimeout p - (waited + 50) + 49) div 50 + 1"
        by simp
      moreover have "0 \<le> (fetchTimeout p - (waited + 50) + 49) div 50" using True by simp
      ultimately show ?thesis by simp
    qed
    have notready: "\<not> isBlocklistFilterSetup (obs k)" using less.prems n by simp
    have hyp: "\<forall>j. Suc k \<le> j \<and> j < Suc k + ?n' \<longrightarrow> \<not> isBlocklistFilterSetup (obs j)"
      using less.prems n by simp
    have "run_task obs k (wait_loop (obs k) p waited) = run_task obs k (Sleeping p waited)"
      using True notready by (simp add: wait_loop_def)
    also have "\<dots> = run_task obs (Suc k) (wait_loop (obs (Suc k)) p (waited + 50))"
      by simp
    also have "\<dots> = timeout_response (obs (Suc k + ?n')) (waited + 50 + 50 * int ?n')"
      using less.hyps[of "waited + 50" "Suc k"] hyp True by simp
    finally have r: "run_task obs k (wait_loop (obs k) p waited) =
        timeout_response (obs (Suc k + ?n')) (waited + 50 + 50 * int ?n')" .
    have eqs: "Suc k + ?n' = k + ?n" "waited + 50 + 50 * int ?n' = waited + 50 * int ?n"
      by (simp_all only: n) simp_all
    show ?thesis using r by (simp only: eqs)
  qed
qed

lemma sleeps_bounds:
  "fetchTimeout p \<le> 50 * int (sleeps p)"
  "0 < sleeps p \<Longrightarrow> 50 * (int (sleeps p) - 1) < fetchTimeout p"
proof -
  let ?x = "(fetchTimeout p + 49) div 50"
  have m: "?x * 50 + (fetchTimeout p + 49) mod 50 = fetchTimeout p + 49"
    by (rule div_mult_mod_eq)
  have b: "0 \<le> (fetchTimeout p + 49) mod 50" "(fetchTimeout p + 49) mod 50 < 50"
    by simp_all
  have "t \<le> 50 * int (nat x)" if "x * 50 + r = t + 49" "r < 50" for x :: int and r :: int and t :: int
    using that by arith
  then show "fetchTimeout p \<le> 50 * int (sleeps p)"
    unfolding sleeps_def using m b(2) by blast
  assume "0 < sleeps p"
  then have "int (sleeps p) = ?x" by (simp add: sleeps_def)
  moreover have "50 * (x - 1) < t" if "x * 50 + r = t + 49" "0 \<le> r" for x :: int and r :: int and t :: int
    using that by arith
  ultimately show "50 * (int (sleeps p) - 1) < fetchTimeout p"
    using m b(1) by simp
qed

lemma RethinkModule_waiter:
  "\<not> isBlocklistFilterSetup w \<Longrightarrow> isBlocklistUnderConstruction w \<Longrightarrow>
   now - startTime w \<le> 2 * workerTimeout p \<Longrightarrow>
   RethinkModule w now h p = (w, wait_loop w p 0)"
  by (simp add: RethinkModule_def)

text \<open>
  Claim C3, as amended. A call that finds a build in progress that is not stale, and
  that never finds the filter set up when it looks, sleeps \<open>sleeps p\<close> times for 50 units
  each, until the total is at least \<open>fetchTimeout\<close> (and less than \<open>fetchTimeout + 50\<close>),
  and then returns an envelope with \<open>isException = True\<close> and no filter. Its
  \<open>r_exceptionStack\<close> is \<^verbatim>\<open>"blocklist-filter timeout "\<close> followed by that total, and its
  \<open>r_exceptionFrom\<close> is \<^verbatim>\<open>"blocklistWrapper.js"\<close>, unless the wrapper holds a recorded
  builder failure at that moment: then the recorded stack and origin are returned
  instead, each on its own, whether the failure was recorded during the wait or at any
  time before it. \<open>obs k\<close> is the shared state that the waiter finds at its \<open>k\<close>-th run.
\<close>

theorem waiter_timeout:
  "\<not> isBlocklistFilterSetup (obs 0) \<and> isBlocklistUnderConstruction (obs 0) \<and>
   now - startTime (obs 0) \<le> 2 * workerTimeout p \<and>
   (\<forall>j. j < sleeps p \<longrightarrow> \<not> isBlocklistFilterSetup (obs j)) \<longrightarrow>
     acquire obs now h p =
       \<lparr>isException = True,
        r_exceptionStack =
          (if exceptionStack (obs (sleeps p)) \<noteq> [] then exceptionStack (obs (sleeps p))
           else ''blocklist-filter timeout '' @ String_of (50 * int (sleeps p))),
        r_exceptionFrom =
          (if exceptionFrom (obs (sleeps p)) \<noteq> [] then exceptionFrom (obs (sleeps p))
           else ''blocklistWrapper.js''),
        data_blocklistFilter = None\<rparr> \<and>
     fetchTimeout p \<le> 50 * int (sleeps p) \<and>
     (0 < sleeps p \<longrightarrow> 50 * (int (sleeps p) - 1) < fetchTimeout p)"
proof
  assume a: "\<not> isBlocklistFilterSetup (obs 0) \<and> isBlocklistUnderConstruction (obs 0) \<and>
   now - startTime (obs 0) \<le> 2 * workerTimeout p \<and>
   (\<forall>j. j < sleeps p \<longrightarrow> \<not> isBlocklistFilterSetup (obs j))"
  then have "acquire obs now h p = run_task obs 0 (wait_loop (obs 0) p 0)"
    by (simp add: acquire_def RethinkModule_waiter)
  also have "\<dots> = timeout_response (obs (sleeps p)) (50 * int (sleeps p))"
    using run_task_wait_loop[of 0 p 0 obs] a by (simp add: sleeps_def)
  finally have r: "acquire obs now h p = timeout_response (obs (sleeps p)) (50 * int (sleeps p))" .
  show "acquire obs now h p =
       \<lparr>isException = True,
        r_exceptionStack =
          (if exceptionStack (obs (sleeps p)) \<noteq> [] then exceptionStack (obs (sleeps p))
           else ''blocklist-filter timeout '' @ String_of (50 * int (sleeps p))),
        r_exceptionFrom =
          (if exceptionFrom (obs (sleeps p)) \<noteq> [] then exceptionFrom (obs (sleeps p))
           else ''blocklistWrapper.js''),
        data_blocklistFilter = None\<rparr> \<and>
     fetchTimeout p \<le> 50 * int (sleeps p) \<and>
     (0 < sleeps p \<longrightarrow> 50 * (int (sleeps p) - 1) < fetchTimeout p)"
    using r sleeps_bounds[of p] by (simp add: timeout_response_def emptyResponse_def)
qed

lemma sleeps_param0: "sleeps param0 = 2"
  by (simp add: sleeps_def param0_def)

lemma String_of_100: "String_of 100 = ''100''"
  by (simp add: String_of_def digits.simps digit_char_def)

theorem waiter_timeout_witness:
  "acquire (\<lambda>k. world_stale) 1005 host_up param0 =
     \<lparr>isException = True, r_exceptionStack = ''blocklist-filter timeout 100'',
      r_exceptionFrom = ''blocklistWrapper.js'', data_blocklistFilter = None\<rparr>"
proof -
  have "\<not> isBlocklistFilterSetup ((\<lambda>k. world_stale) 0) \<and>
      isBlocklistUnderConstruction ((\<lambda>k. world_stale) 0) \<and>
      1005 - startTime ((\<lambda>k. world_stale) 0) \<le> 2 * workerTimeout param0 \<and>
      (\<forall>j. j < sleeps param0 \<longrightarrow> \<not> isBlocklistFilterSetup ((\<lambda>k. world_stale) j))"
    by (simp add: world_stale_def constructor_def isBlocklistFilterSetup_def
        new_BlocklistFilter_def param0_def)
  with waiter_timeout[where obs = "\<lambda>k. world_stale" and now = 1005 and p = param0 and h = host_up]
  show ?thesis
    by (simp add: sleeps_param0 String_of_100) (simp add: world_stale_def constructor_def)
qed

lemma world_failed_before_fields:
  "\<not> isBlocklistFilterSetup world_failed_before"
  "isBlocklistUnderConstruction world_failed_before"
  "startTime world_failed_before = 1000"
  "exceptionFrom world_failed_before = ''initBlocklistConstruction''"
  "exceptionStack world_failed_before =
     [CHR ''['', CHR 0x22] @ ''u/1/filetag.json'' @ [CHR 0x22] @ '',{},''
       @ [CHR 0x22] @ ''fileFetch fail'' @ [CHR 0x22] @ '']''"
  by (simp_all add: world_failed_before_def run_defs stringify_fail_def stringify_Response_def
       quoteJSONString_def escape_char_def)

text \<open>
  The claim as stated fails when the failure on record is older than the wait. A first
  build fails at once; a second build is started at time \<open>1000\<close> and is in progress; a
  call at time \<open>1005\<close> waits, the shared state never changes while it does (so no
  failure is recorded meanwhile), and it returns the stack and the origin of the first
  build's failure, not the elapsed wait.
\<close>

theorem waiter_old_failure_counterexample:
  "\<not> isBlocklistFilterSetup world_failed_before \<and>
   isBlocklistUnderConstruction world_failed_before \<and>
   1005 - startTime world_failed_before \<le> 2 * workerTimeout param0 \<and>
   r_exceptionStack (acquire (\<lambda>k. world_failed_before) 1005 host_up param0) =
     [CHR ''['', CHR 0x22] @ ''u/1/filetag.json'' @ [CHR 0x22] @ '',{},''
       @ [CHR 0x22] @ ''fileFetch fail'' @ [CHR 0x22] @ '']'' \<and>
   r_exceptionStack (acquire (\<lambda>k. world_failed_before) 1005 host_up param0) \<noteq>
     ''blocklist-filter timeout '' @ String_of 100 \<and>
   r_exceptionFrom (acquire (\<lambda>k. world_failed_before) 1005 host_up param0) =
     ''initBlocklistConstruction''"
proof -
  have w: "RethinkModule world_failed_before 1005 host_up param0 =
      (world_failed_before, wait_loop world_failed_before param0 0)"
    by (rule RethinkModule_waiter) (simp_all add: world_failed_before_fields param0_fields)
  have "acquire (\<lambda>k. world_failed_before) 1005 host_up param0 =
      timeout_response world_failed_before 100"
    by (simp add: acquire_def w wait_loop_def world_failed_before_fields param0_fields)
  then show ?thesis
    by (simp add: timeout_response_def emptyResponse_def world_failed_before_fields param0_def
        String_of_100)
qed

section \<open>Recorded failures are overwritten only by failures\<close>

lemma step_Stack_kept:
  assumes "exceptionStack (fst s) \<noteq> []" "\<not> silent_failure s e"
  shows "exceptionStack (fst (step s e)) \<noteq> []"
proof (cases "build_fails s e")
  case False
  then show ?thesis using step_fields[of s e] assms(1) by simp
next
  case True
  obtain w ts where s: "s = (w, ts)" by (cases s)
  from True obtain i where e: "e = Resume i" by (cases e) (simp_all add: build_fails_def)
  from True e s have i: "i < length ts" by (simp add: build_fails_def)
  from True e s i obtain h c d where k: "ts ! i = Downloading h c d"
    by (cases "ts ! i") (simp_all add: build_fails_def)
  obtain r where r: "snd (initBlocklistConstruction_settled w h c d) = Returned r"
    using settled_returns by blast
  have ex: "isException r" using True e s i k r by (simp add: build_fails_def)
  have ne: "r_exceptionStack r \<noteq> []" using assms(2) e s i k r ex by (simp add: silent_failure_def)
  show ?thesis
    using settled_failure_fields[OF r ex] ne e s i k by (simp add: step_Resume)
qed

lemma exec_Stack_kept:
  "exceptionStack (fst s) \<noteq> [] \<Longrightarrow> no_silent_failure s es \<Longrightarrow>
   exceptionStack (fst (exec s es)) \<noteq> []"
  by (induction es arbitrary: s) (simp_all add: step_Stack_kept)

lemma waiter_after_failure:
  assumes i: "i < length (snd s)" and k: "snd s ! i = Downloading h c d"
    and r: "snd (resume (fst s) (Downloading h c d)) = Returned r" and ex: "isException r"
    and q: "no_new_failure (step s (Resume i)) es" and t: "fetchTimeout p \<le> waited + 50"
  shows "resume (fst (exec s (Resume i # es))) (Sleeping p waited) =
        (fst (exec s (Resume i # es)),
         Returned \<lparr>isException = True,
                   r_exceptionStack =
                     (if r_exceptionStack r \<noteq> [] then r_exceptionStack r
                      else ''blocklist-filter timeout '' @ String_of (waited + 50)),
                   r_exceptionFrom = ''initBlocklistConstruction'',
                   data_blocklistFilter = None\<rparr>)"
proof -
  obtain w ts where s: "s = (w, ts)" by (cases s)
  have r': "snd (initBlocklistConstruction_settled w h c d) = Returned r" using r s by simp
  note fl = settled_failure_fields[OF r' ex]
  have st: "fst (step s (Resume i)) = fst (initBlocklistConstruction_settled w h c d)"
    using i k s by (simp add: step_Resume)
  have f1: "exceptionFrom (fst (step s (Resume i))) = ''initBlocklistConstruction''"
    and f2: "exceptionStack (fst (step s (Resume i))) = r_exceptionStack r"
    using fl by (simp_all only: st)
  have e: "exec s (Resume i # es) = exec (step s (Resume i)) es" by simp
  note kept = exec_fields[OF q]
  show ?thesis
    using kept t unfolding e
    by (simp add: wait_loop_def timeout_response_def emptyResponse_def f1 f2)
qed


lemma system_failed_fields:
  "exceptionFrom (fst system_failed) = ''initBlocklistConstruction''"
  "exceptionStack (fst system_failed) =
     [CHR ''['', CHR 0x22] @ ''u/1/filetag.json'' @ [CHR 0x22] @ '',{},''
       @ [CHR 0x22] @ ''fileFetch fail'' @ [CHR 0x22] @ '']''"
  by (simp_all add: system_failed_def run_defs stringify_fail_def stringify_Response_def
       quoteJSONString_def escape_char_def)

lemma system_failed_quiet:
  "no_new_failure system_failed [Call 1000 host_up param0, Call 1005 host_up param0, Resume 2]"
  by (simp add: system_failed_def run_defs build_fails_def)

lemma success_after_failure:
  "snd (resume world_failed_before (Downloading host_up config0
          (snd (snd (downloadBuildBlocklist host_up ''u/'' ''1'' 5 (- 1)))))) =
     Returned \<lparr>isException = False, r_exceptionStack = [], r_exceptionFrom = [],
               data_blocklistFilter = Some 0\<rparr>"
  by (simp add: world_failed_before_def run_defs config0_def)

lemma system_failed_loud:
  "no_silent_failure system_failed [Call 1000 host_up param0, Call 1005 host_up param0, Resume 2]"
  by (simp add: system_failed_def run_defs silent_failure_def)

lemma system_failed_started:
  "no_new_failure system_failed [Call 1000 host_up param0]"
  "\<not> isBlocklistFilterSetup (fst (exec system_failed [Call 1000 host_up param0]))"
  "isBlocklistUnderConstruction (fst (exec system_failed [Call 1000 host_up param0]))"
  "startTime (fst (exec system_failed [Call 1000 host_up param0])) = 1000"
  by (simp_all add: system_failed_def run_defs build_fails_def)



section \<open>Every failure becomes an envelope\<close>

lemma downloadBuildBlocklist_join:
  "snd (snd (downloadBuildBlocklist h u ts nc parts)) =
     Promise_all (legs h (u @ ts) (fst (snd (downloadBuildBlocklist h u ts nc parts))))"
  by (simp add: downloadBuildBlocklist_def legs_def Let_def case_prod_beta del: Promise_all.simps)

lemma makeTd_isl:
  "isl (snd (snd (makeTd h baseurl n))) \<longleftrightarrow>
     (if n \<le> - 1 then isl (snd (snd (fileFetch h (baseurl @ ''/td.txt'') ''buffer'')))
      else (\<exists>i \<in> {0..n}. isl (snd (snd (fileFetch h (baseurl @ ''/td'' @ toLocaleString i @ ''.txt'') ''buffer'')))))"
proof (cases "n \<le> - 1")
  case True
  then show ?thesis by (simp add: makeTd_def)
next
  case False
  let ?ps = "map (\<lambda>j. snd (fileFetch h (td_url baseurl j) ''buffer'')) [0..n]"
  obtain at q where pq: "Promise_all ?ps = (at, q)" by (cases "Promise_all ?ps")
  have "isl (snd (snd (makeTd h baseurl n))) = isl q"
    using False pq by (simp add: makeTd_def tdloop_eq split: sum.splits)
  also have "\<dots> = isl (snd (Promise_all ?ps))" using pq by simp
  also have "\<dots> = (\<exists>i \<in> {0..n}. isl (snd (snd (fileFetch h (td_url baseurl i) ''buffer''))))"
    by (simp add: Promise_all_isl_iff)
  finally show ?thesis using False by (simp add: td_url_def)
qed

lemma settled_rejected:
  assumes "d = (at, Inl e)"
  shows "initBlocklistConstruction_settled w h c d = initBlocklistConstruction_catch w e"
  using assms by (simp add: initBlocklistConstruction_settled_def)

lemma settled_builder_throws:
  assumes "snd d = Inr [d0, d1, d2]" "createBlocklistFilter h d1 d2 d0 c = Inl e"
  shows "initBlocklistConstruction_settled w h c d =
           initBlocklistConstruction_catch (w\<lparr>td := Some d1, rd := Some d2, ft := Some d0\<rparr>) e"
  using assms
  by (simp add: initBlocklistConstruction_settled_def downloadBuildBlocklist_built_def Let_def)

lemma catch_result:
  "initBlocklistConstruction_catch w e =
     (w\<lparr>exceptionFrom := ''initBlocklistConstruction'', exceptionStack := message e,
        isBlocklistUnderConstruction := False\<rparr>,
      Returned \<lparr>isException = True, r_exceptionStack = message e,
                r_exceptionFrom = ''initBlocklistConstruction'', data_blocklistFilter = None\<rparr>)"
  by (simp add: initBlocklistConstruction_catch_def errResponse_def Let_def)

lemma settled_failed_frame:
  assumes "snd (initBlocklistConstruction_settled w h c d) = Returned r" "isException r"
  shows "\<not> isBlocklistUnderConstruction (fst (initBlocklistConstruction_settled w h c d)) \<and>
         heap (fst (initBlocklistConstruction_settled w h c d)) = heap w \<and>
         blocklistFilter (fst (initBlocklistConstruction_settled w h c d)) = blocklistFilter w \<and>
         fetched (fst (initBlocklistConstruction_settled w h c d)) = fetched w \<and>
         data_blocklistFilter r = None"
proof (cases rule: settled_cases[of w h c d])
  case (failed w' e)
  then show ?thesis using assms by (auto simp: catch_frame errResponse_def)
next
  case (loaded w' bl)
  then show ?thesis using assms by (auto simp: emptyResponse_def)
qed

text \<open>
  Claim C5, as amended. Let \<open>c\<close> and \<open>d\<close> be the basic config and the joined promise of
  a build for any request, resumed in any world \<open>w\<close>. If one of the three legs of the
  build (file tags, assembled trie, rank directory) is rejected, the builder returns the
  error envelope of a rejected leg, with \<open>isException = True\<close>, the origin
  \<^verbatim>\<open>"initBlocklistConstruction"\<close>, the message of the error as its stack and no filter,
  and the wrapper changes in this only: the same origin and stack are recorded and the
  flag is down. If all three are fulfilled and the filter builder throws, the same holds
  for the error thrown, the three payloads being stored besides. Whenever a resumed
  builder returns an envelope with \<open>isException = True\<close>, that envelope has this origin
  and no filter, its origin and stack are the recorded ones, the flag is down, and
  nothing was loaded into the filter object. The state is then \<open>Idle\<close> if the filter was
  not set up when the builder was resumed, and any next call, whatever its time, host
  and parameter, becomes the builder of a whole new build at once; it is \<open>Ready\<close> if
  another build had set the filter up meanwhile, and any next call is served with that
  filter. The assembled trie is rejected exactly when the request of one of its parts
  is.
\<close>

theorem failures_become_envelopes:
  "(d = snd (snd (downloadBuildBlocklist h u ts nc parts)) \<and>
    c = fst (snd (downloadBuildBlocklist h u ts nc parts)) \<longrightarrow>
      ((\<exists>l \<in> set (legs h (u @ ts) c). isl (snd l)) \<longrightarrow>
         (\<exists>at e. (at, Inl e) \<in> set (legs h (u @ ts) c) \<and>
            resume w (Downloading h c d) =
              (w\<lparr>exceptionFrom := ''initBlocklistConstruction'', exceptionStack := message e,
                 isBlocklistUnderConstruction := False\<rparr>,
               Returned \<lparr>isException = True, r_exceptionStack = message e,
                         r_exceptionFrom = ''initBlocklistConstruction'',
                         data_blocklistFilter = None\<rparr>))) \<and>
      (map snd (legs h (u @ ts) c) = [Inr d0, Inr d1, Inr d2] \<and>
       createBlocklistFilter h d1 d2 d0 c = Inl e' \<longrightarrow>
         resume w (Downloading h c d) =
           (w\<lparr>td := Some d1, rd := Some d2, ft := Some d0,
              exceptionFrom := ''initBlocklistConstruction'', exceptionStack := message e',
              isBlocklistUnderConstruction := False\<rparr>,
            Returned \<lparr>isException = True, r_exceptionStack = message e',
                      r_exceptionFrom = ''initBlocklistConstruction'',
                      data_blocklistFilter = None\<rparr>))) \<and>
   (snd (resume w (Downloading h c d)) = Returned r \<and> isException r \<longrightarrow>
      r_exceptionFrom r = ''initBlocklistConstruction'' \<and> data_blocklistFilter r = None \<and>
      exceptionFrom (fst (resume w (Downloading h c d))) = r_exceptionFrom r \<and>
      exceptionStack (fst (resume w (Downloading h c d))) = r_exceptionStack r \<and>
      \<not> isBlocklistUnderConstruction (fst (resume w (Downloading h c d))) \<and>
      heap (fst (resume w (Downloading h c d))) = heap w \<and>
      blocklistFilter (fst (resume w (Downloading h c d))) = blocklistFilter w \<and>
      build_state (fst (resume w (Downloading h c d))) =
        (if isBlocklistFilterSetup w then Ready else Idle) \<and>
      (\<not> isBlocklistFilterSetup w \<longrightarrow>
         RethinkModule (fst (resume w (Downloading h c d))) now' h' p' =
           ((fst (resume w (Downloading h c d)))
              \<lparr>isBlocklistUnderConstruction := True, startTime := now',
               fetched := fetched w @ [blocklistUrl p' @ latestTimestamp p' @ ''/filetag.json'']
                 @ fst (makeTd h' (blocklistUrl p' @ latestTimestamp p')
                         (if tdParts p' \<noteq> 0 then tdParts p' else - 1))
                 @ [blocklistUrl p' @ latestTimestamp p' @ ''/rd.txt'']\<rparr>,
            Downloading h'
              \<lparr>nodecount = (if tdNodecount p' \<noteq> 0 then tdNodecount p' else - 1),
               tdparts = (if tdParts p' \<noteq> 0 then tdParts p' else - 1)\<rparr>
              (Promise_all
                 [snd (fileFetch h' (blocklistUrl p' @ latestTimestamp p' @ ''/filetag.json'') ''json''),
                  snd (makeTd h' (blocklistUrl p' @ latestTimestamp p')
                         (if tdParts p' \<noteq> 0 then tdParts p' else - 1)),
                  snd (fileFetch h' (blocklistUrl p' @ latestTimestamp p' @ ''/rd.txt'') ''buffer'')]))) \<and>
      (isBlocklistFilterSetup w \<longrightarrow>
         RethinkModule (fst (resume w (Downloading h c d))) now' h' p' =
           (fst (resume w (Downloading h c d)),
            Returned \<lparr>isException = False, r_exceptionStack = [], r_exceptionFrom = [],
                      data_blocklistFilter = Some (blocklistFilter w)\<rparr>))) \<and>
   (isl (snd (snd (makeTd h baseurl n))) \<longleftrightarrow>
      (if n \<le> - 1 then isl (snd (snd (fileFetch h (baseurl @ ''/td.txt'') ''buffer'')))
       else (\<exists>i \<in> {0..n}. isl (snd (snd (fileFetch h
               (baseurl @ ''/td'' @ toLocaleString i @ ''.txt'') ''buffer''))))))"
proof -
  let ?out = "resume w (Downloading h c d)"
  have stage: "((\<exists>l \<in> set (legs h (u @ ts) c). isl (snd l)) \<longrightarrow>
         (\<exists>at e. (at, Inl e) \<in> set (legs h (u @ ts) c) \<and>
            ?out =
              (w\<lparr>exceptionFrom := ''initBlocklistConstruction'', exceptionStack := message e,
                 isBlocklistUnderConstruction := False\<rparr>,
               Returned \<lparr>isException = True, r_exceptionStack = message e,
                         r_exceptionFrom = ''initBlocklistConstruction'',
                         data_blocklistFilter = None\<rparr>))) \<and>
      (map snd (legs h (u @ ts) c) = [Inr d0, Inr d1, Inr d2] \<and>
       createBlocklistFilter h d1 d2 d0 c = Inl e' \<longrightarrow>
         ?out =
           (w\<lparr>td := Some d1, rd := Some d2, ft := Some d0,
              exceptionFrom := ''initBlocklistConstruction'', exceptionStack := message e',
              isBlocklistUnderConstruction := False\<rparr>,
            Returned \<lparr>isException = True, r_exceptionStack = message e',
                      r_exceptionFrom = ''initBlocklistConstruction'',
                      data_blocklistFilter = None\<rparr>))"
    if dd: "d = snd (snd (downloadBuildBlocklist h u ts nc parts))"
      and cc: "c = fst (snd (downloadBuildBlocklist h u ts nc parts))"
  proof (intro conjI impI)
    have join: "d = Promise_all (legs h (u @ ts) c)"
      using dd cc downloadBuildBlocklist_join[of h u ts nc parts] by simp
    {
      assume "\<exists>l \<in> set (legs h (u @ ts) c). isl (snd l)"
      then have "isl (snd d)" by (simp only: join Promise_all_isl_iff)
      then obtain at e where de: "d = (at, Inl e)" by (cases d; cases "snd d") auto
      then have "(at, Inl e) \<in> set (legs h (u @ ts) c)"
        using join Promise_all_Inl_mem by metis
      moreover have "?out =
              (w\<lparr>exceptionFrom := ''initBlocklistConstruction'', exceptionStack := message e,
                 isBlocklistUnderConstruction := False\<rparr>,
               Returned \<lparr>isException = True, r_exceptionStack = message e,
                         r_exceptionFrom = ''initBlocklistConstruction'',
                         data_blocklistFilter = None\<rparr>)"
        by (simp add: settled_rejected[OF de] catch_result)
      ultimately show "\<exists>at e. (at, Inl e) \<in> set (legs h (u @ ts) c) \<and>
            ?out =
              (w\<lparr>exceptionFrom := ''initBlocklistConstruction'', exceptionStack := message e,
                 isBlocklistUnderConstruction := False\<rparr>,
               Returned \<lparr>isException = True, r_exceptionStack = message e,
                         r_exceptionFrom = ''initBlocklistConstruction'',
                         data_blocklistFilter = None\<rparr>)" by blast
    next
      assume m: "map snd (legs h (u @ ts) c) = [Inr d0, Inr d1, Inr d2] \<and>
         createBlocklistFilter h d1 d2 d0 c = Inl e'"
      then have "map snd (legs h (u @ ts) c) = map Inr [d0, d1, d2]" by simp
      then have "snd d = Inr [d0, d1, d2]" by (simp only: join Promise_all_Inr_iff)
      then show "?out =
           (w\<lparr>td := Some d1, rd := Some d2, ft := Some d0,
              exceptionFrom := ''initBlocklistConstruction'', exceptionStack := message e',
              isBlocklistUnderConstruction := False\<rparr>,
            Returned \<lparr>isException = True, r_exceptionStack = message e',
                      r_exceptionFrom = ''initBlocklistConstruction'',
                      data_blocklistFilter = None\<rparr>)"
        using m by (simp add: settled_builder_throws catch_result)
    }
  qed
  have after: "r_exceptionFrom r = ''initBlocklistConstruction'' \<and> data_blocklistFilter r = None \<and>
      exceptionFrom (fst ?out) = r_exceptionFrom r \<and>
      exceptionStack (fst ?out) = r_exceptionStack r \<and>
      \<not> isBlocklistUnderConstruction (fst ?out) \<and>
      heap (fst ?out) = heap w \<and>
      blocklistFilter (fst ?out) = blocklistFilter w \<and>
      build_state (fst ?out) = (if isBlocklistFilterSetup w then Ready else Idle) \<and>
      (\<not> isBlocklistFilterSetup w \<longrightarrow>
         RethinkModule (fst ?out) now' h' p' =
           ((fst ?out)
              \<lparr>isBlocklistUnderConstruction := True, startTime := now',
               fetched := fetched w @ [blocklistUrl p' @ latestTimestamp p' @ ''/filetag.json'']
                 @ fst (makeTd h' (blocklistUrl p' @ latestTimestamp p')
                         (if tdParts p' \<noteq> 0 then tdParts p' else - 1))
                 @ [blocklistUrl p' @ latestTimestamp p' @ ''/rd.txt'']\<rparr>,
            Downloading h'
              \<lparr>nodecount = (if tdNodecount p' \<noteq> 0 then tdNodecount p' else - 1),
               tdparts = (if tdParts p' \<noteq> 0 then tdParts p' else - 1)\<rparr>
              (Promise_all
                 [snd (fileFetch h' (blocklistUrl p' @ latestTimestamp p' @ ''/filetag.json'') ''json''),
                  snd (makeTd h' (blocklistUrl p' @ latestTimestamp p')
                         (if tdParts p' \<noteq> 0 then tdParts p' else - 1)),
                  snd (fileFetch h' (blocklistUrl p' @ latestTimestamp p' @ ''/rd.txt'') ''buffer'')]))) \<and>
      (isBlocklistFilterSetup w \<longrightarrow>
         RethinkModule (fst ?out) now' h' p' =
           (fst ?out,
            Returned \<lparr>isException = False, r_exceptionStack = [], r_exceptionFrom = [],
                      data_blocklistFilter = Some (blocklistFilter w)\<rparr>))"
    if ret: "snd ?out = Returned r" and ex: "isException r"
  proof -
    have r': "snd (initBlocklistConstruction_settled w h c d) = Returned r" using ret by simp
    note fr = settled_failed_frame[OF r' ex]
    note fl = settled_failure_fields[OF r' ex]
    have hp: "heap (fst ?out) = heap w" and bf: "blocklistFilter (fst ?out) = blocklistFilter w"
      and nf: "\<not> isBlocklistUnderConstruction (fst ?out)" and fe: "fetched (fst ?out) = fetched w"
      using fr by simp_all
    have su: "isBlocklistFilterSetup (fst ?out) = isBlocklistFilterSetup w"
      using hp bf by (rule setup_cong)
    have bs: "build_state (fst ?out) = (if isBlocklistFilterSetup w then Ready else Idle)"
      using su nf by (simp add: build_state_def)
    have again: "RethinkModule (fst ?out) now' h' p' =
           ((fst ?out)
              \<lparr>isBlocklistUnderConstruction := True, startTime := now',
               fetched := fetched w @ [blocklistUrl p' @ latestTimestamp p' @ ''/filetag.json'']
                 @ fst (makeTd h' (blocklistUrl p' @ latestTimestamp p')
                         (if tdParts p' \<noteq> 0 then tdParts p' else - 1))
                 @ [blocklistUrl p' @ latestTimestamp p' @ ''/rd.txt'']\<rparr>,
            Downloading h'
              \<lparr>nodecount = (if tdNodecount p' \<noteq> 0 then tdNodecount p' else - 1),
               tdparts = (if tdParts p' \<noteq> 0 then tdParts p' else - 1)\<rparr>
              (Promise_all
                 [snd (fileFetch h' (blocklistUrl p' @ latestTimestamp p' @ ''/filetag.json'') ''json''),
                  snd (makeTd h' (blocklistUrl p' @ latestTimestamp p')
                         (if tdParts p' \<noteq> 0 then tdParts p' else - 1)),
                  snd (fileFetch h' (blocklistUrl p' @ latestTimestamp p' @ ''/rd.txt'') ''buffer'')]))"
      if "\<not> isBlocklistFilterSetup w"
    proof -
      have a: "\<not> isBlocklistFilterSetup (fst ?out)" using that su by simp
      have b: "\<not> isBlocklistUnderConstruction (fst ?out)
          \<or> now' - startTime (fst ?out) > 2 * workerTimeout p'" using nf by simp
      show ?thesis using RethinkModule_builder_eq[OF a b, of h'] by (simp only: fe)
    qed
    have served: "RethinkModule (fst ?out) now' h' p' =
           (fst ?out,
            Returned \<lparr>isException = False, r_exceptionStack = [], r_exceptionFrom = [],
                      data_blocklistFilter = Some (blocklistFilter w)\<rparr>)"
      if "isBlocklistFilterSetup w"
    proof -
      have "isBlocklistFilterSetup (fst ?out)" using that su by simp
      from RethinkModule_ready[OF this, of now' h' p'] bf show ?thesis
        by (simp add: emptyResponse_def)
    qed
    show ?thesis using fr fl bs again served by simp
  qed
  show ?thesis
    using stage after makeTd_isl[of h baseurl n] by (intro conjI impI) blast+
qed

lemma download_param0:
  "fst (snd (downloadBuildBlocklist h ''u/'' ''1'' 5 (- 1))) = config0"
  by (simp add: downloadBuildBlocklist_config config0_def)

lemma legs_down:
  "legs host_down ''u/1'' config0 =
     [(1, Inl (Error (stringify_fail ''u/1/filetag.json'' response_404))),
      (1, Inl (Error (stringify_fail ''u/1/td.txt'' response_404))),
      (1, Inl (Error (stringify_fail ''u/1/rd.txt'' response_404)))]"
  by (simp add: legs_def config0_def makeTd_def fileFetch_def host_down_def response_404_def)

lemma legs_throws:
  "map snd (legs host_throws ''u/1'' config0) =
     [Inr (Json (JObj [])), Inr (Buffer [9]), Inr (Buffer [9])]"
  by (simp add: legs_def config0_def makeTd_def fileFetch_def host_throws_def host_up_def
        response_ok_def)

theorem failures_become_envelopes_witness:
  "(\<exists>at e. (at, Inl e) \<in> set (legs host_down ''u/1'' config0) \<and>
      resume world_stale (Downloading host_down config0
           (snd (snd (downloadBuildBlocklist host_down ''u/'' ''1'' 5 (- 1))))) =
        (world_stale\<lparr>exceptionFrom := ''initBlocklistConstruction'', exceptionStack := message e,
           isBlocklistUnderConstruction := False\<rparr>,
         Returned \<lparr>isException = True, r_exceptionStack = message e,
                   r_exceptionFrom = ''initBlocklistConstruction'',
                   data_blocklistFilter = None\<rparr>)) \<and>
   resume world_stale (Downloading host_throws config0
        (snd (snd (downloadBuildBlocklist host_throws ''u/'' ''1'' 5 (- 1))))) =
     (world_stale\<lparr>td := Some (Buffer [9]), rd := Some (Buffer [9]), ft := Some (Json (JObj [])),
        exceptionFrom := ''initBlocklistConstruction'', exceptionStack := ''bad trie'',
        isBlocklistUnderConstruction := False\<rparr>,
      Returned \<lparr>isException = True, r_exceptionStack = ''bad trie'',
                r_exceptionFrom = ''initBlocklistConstruction'',
                data_blocklistFilter = None\<rparr>) \<and>
   build_state (fst (resume world_stale (Downloading host_throws config0
        (snd (snd (downloadBuildBlocklist host_throws ''u/'' ''1'' 5 (- 1))))))) = Idle \<and>
   build_state (fst (RethinkModule
       (fst (resume world_stale (Downloading host_throws config0
          (snd (snd (downloadBuildBlocklist host_throws ''u/'' ''1'' 5 (- 1)))))))
       7 host_up param0)) = Building 7"
proof -
  let ?dd = "snd (snd (downloadBuildBlocklist host_down ''u/'' ''1'' 5 (- 1)))"
  let ?dt = "snd (snd (downloadBuildBlocklist host_throws ''u/'' ''1'' 5 (- 1)))"
  have a: "\<exists>l \<in> set (legs host_down ''u/1'' config0). isl (snd l)"
    by (simp add: legs_down)
  have b: "map snd (legs host_throws ''u/1'' config0) =
       [Inr (Json (JObj [])), Inr (Buffer [9]), Inr (Buffer [9])] \<and>
     createBlocklistFilter host_throws (Buffer [9]) (Buffer [9]) (Json (JObj [])) config0
       = Inl (Error ''bad trie'')"
    by (simp add: legs_throws) (simp add: host_throws_def)
  from a failures_become_envelopes[where h = host_down and u = "''u/''" and ts = "''1''" and nc = 5
      and parts = "- 1" and c = config0 and w = world_stale and d = ?dd]
  have one: "\<exists>at e. (at, Inl e) \<in> set (legs host_down ''u/1'' config0) \<and>
      resume world_stale (Downloading host_down config0 ?dd) =
        (world_stale\<lparr>exceptionFrom := ''initBlocklistConstruction'', exceptionStack := message e,
           isBlocklistUnderConstruction := False\<rparr>,
         Returned \<lparr>isException = True, r_exceptionStack = message e,
                   r_exceptionFrom = ''initBlocklistConstruction'',
                   data_blocklistFilter = None\<rparr>)"
    by (simp add: download_param0)
  from b failures_become_envelopes[where h = host_throws and u = "''u/''" and ts = "''1''" and nc = 5
      and parts = "- 1" and c = config0 and w = world_stale and d = ?dt
      and ?d0.0 = "Json (JObj [])" and ?d1.0 = "Buffer [9]" and ?d2.0 = "Buffer [9]"
      and e' = "Error ''bad trie''"]
  have two: "resume world_stale (Downloading host_throws config0 ?dt) =
     (world_stale\<lparr>td := Some (Buffer [9]), rd := Some (Buffer [9]), ft := Some (Json (JObj [])),
        exceptionFrom := ''initBlocklistConstruction'', exceptionStack := ''bad trie'',
        isBlocklistUnderConstruction := False\<rparr>,
      Returned \<lparr>isException = True, r_exceptionStack = ''bad trie'',
                r_exceptionFrom = ''initBlocklistConstruction'',
                data_blocklistFilter = None\<rparr>)"
    by (simp add: download_param0)
  have ns: "\<not> isBlocklistFilterSetup world_stale"
    by (simp add: world_stale_def constructor_def isBlocklistFilterSetup_def new_BlocklistFilter_def)
  have failed: "snd (resume world_stale (Downloading host_throws config0 ?dt)) =
      Returned \<lparr>isException = True, r_exceptionStack = ''bad trie'',
                r_exceptionFrom = ''initBlocklistConstruction'',
                data_blocklistFilter = None\<rparr> \<and>
      isException \<lparr>isException = True, r_exceptionStack = ''bad trie'',
                r_exceptionFrom = ''initBlocklistConstruction'',
                data_blocklistFilter = None\<rparr>"
    by (simp only: two snd_conv) simp
  note after = failures_become_envelopes[where h = host_throws and c = config0 and w = world_stale
      and d = ?dt and r = "\<lparr>isException = True, r_exceptionStack = ''bad trie'',
                r_exceptionFrom = ''initBlocklistConstruction'',
                data_blocklistFilter = None\<rparr>" and now' = 7 and h' = host_up and p' = param0]
  from failed ns after
  have three: "build_state (fst (resume world_stale (Downloading host_throws config0 ?dt))) = Idle"
    by (simp only: simp_thms if_False)
  from failed ns after
  have again: "RethinkModule (fst (resume world_stale (Downloading host_throws config0 ?dt))) 7 host_up param0 =
           ((fst (resume world_stale (Downloading host_throws config0 ?dt)))
              \<lparr>isBlocklistUnderConstruction := True, startTime := 7,
               fetched := fetched world_stale @ [blocklistUrl param0 @ latestTimestamp param0 @ ''/filetag.json'']
                 @ fst (makeTd host_up (blocklistUrl param0 @ latestTimestamp param0)
                         (if tdParts param0 \<noteq> 0 then tdParts param0 else - 1))
                 @ [blocklistUrl param0 @ latestTimestamp param0 @ ''/rd.txt'']\<rparr>,
            Downloading host_up
              \<lparr>nodecount = (if tdNodecount param0 \<noteq> 0 then tdNodecount param0 else - 1),
               tdparts = (if tdParts param0 \<noteq> 0 then tdParts param0 else - 1)\<rparr>
              (Promise_all
                 [snd (fileFetch host_up (blocklistUrl param0 @ latestTimestamp param0 @ ''/filetag.json'') ''json''),
                  snd (makeTd host_up (blocklistUrl param0 @ latestTimestamp param0)
                         (if tdParts param0 \<noteq> 0 then tdParts param0 else - 1)),
                  snd (fileFetch host_up (blocklistUrl param0 @ latestTimestamp param0 @ ''/rd.txt'') ''buffer'')]))"
    by (simp only: simp_thms)
  have four: "build_state (fst (RethinkModule
       (fst (resume world_stale (Downloading host_throws config0 ?dt))) 7 host_up param0)) = Building 7"
    by (subst again, simp only: two fst_conv,
        simp add: build_state_def isBlocklistFilterSetup_def world_stale_def constructor_def
          new_BlocklistFilter_def emptyObj_def)
  show ?thesis using one two three four by (intro conjI)
qed

text \<open>
  Claim C5 as it was stated: after a failed build attempt the state is \<open>Idle\<close>, and a
  subsequent caller may start a new build. A first build on a new wrapper is taken over
  as stale by a second call, whose requests are answered with status 404. The first
  build then succeeds and the second fails: the second builder returns the error
  envelope, yet the state after the failed attempt is \<open>Ready\<close>, not \<open>Idle\<close>, and the next
  call is served with the filter and sends no request.
\<close>

theorem failed_build_when_ready_counterexample:
  "build_state (fst (exec (constructor, [])
      [Call 0 host_up param0, Call 21 host_down param0, Resume 0])) = Ready \<and>
   downloading (snd (exec (constructor, [])
      [Call 0 host_up param0, Call 21 host_down param0, Resume 0]) ! 1) \<and>
   snd (exec (constructor, [])
      [Call 0 host_up param0, Call 21 host_down param0, Resume 0, Resume 1]) ! 1 =
     Returned \<lparr>isException = True,
               r_exceptionStack = [CHR ''['', CHR 0x22] @ ''u/1/filetag.json'' @ [CHR 0x22] @ '',{},''
                   @ [CHR 0x22] @ ''fileFetch fail'' @ [CHR 0x22] @ '']'',
               r_exceptionFrom = ''initBlocklistConstruction'',
               data_blocklistFilter = None\<rparr> \<and>
   build_state (fst (exec (constructor, [])
      [Call 0 host_up param0, Call 21 host_down param0, Resume 0, Resume 1])) = Ready \<and>
   build_state (fst (exec (constructor, [])
      [Call 0 host_up param0, Call 21 host_down param0, Resume 0, Resume 1])) \<noteq> Idle \<and>
   snd (RethinkModule (fst (exec (constructor, [])
      [Call 0 host_up param0, Call 21 host_down param0, Resume 0, Resume 1])) 30 host_up param0) =
     Returned \<lparr>isException = False, r_exceptionStack = [], r_exceptionFrom = [],
               data_blocklistFilter = Some 0\<rparr> \<and>
   fetched (fst (RethinkModule (fst (exec (constructor, [])
      [Call 0 host_up param0, Call 21 host_down param0, Resume 0, Resume 1])) 30 host_up param0)) =
     fetched (fst (exec (constructor, [])
      [Call 0 host_up param0, Call 21 host_down param0, Resume 0, Resume 1]))"
  by (simp add: run_defs build_state_def stringify_fail_def
        stringify_Response_def quoteJSONString_def escape_char_def)


section \<open>The transitions of the build state\<close>

lemma in_flight_append [simp]: "in_flight (ts @ [k]) = in_flight ts + (if downloading k then 1 else 0)"
  by (simp add: in_flight_def)

lemma in_flight_update:
  "i < length ts \<Longrightarrow>
   in_flight (ts[i := k]) + (if downloading (ts ! i) then 1 else 0) =
     in_flight ts + (if downloading k then 1 else 0)"
proof (induction ts arbitrary: i)
  case Nil
  then show ?case by simp
next
  case (Cons t ts)
  show ?case
  proof (cases i)
    case 0
    then show ?thesis by (simp add: in_flight_def)
  next
    case (Suc j)
    then have "j < length ts" using Cons.prems by simp
    from Cons.IH[OF this] show ?thesis using Suc by (simp add: in_flight_def)
  qed
qed

lemma in_flight_same:
  "i < length ts \<Longrightarrow> downloading k = downloading (ts ! i) \<Longrightarrow> in_flight (ts[i := k]) = in_flight ts"
  using in_flight_update[of i ts k] by (simp split: if_splits)

lemma wait_loop_not_downloading: "\<not> downloading (wait_loop w p n)"
  by (simp add: wait_loop_def)

lemma build_state_cong:
  "heap w' = heap w \<Longrightarrow> blocklistFilter w' = blocklistFilter w \<Longrightarrow>
   isBlocklistUnderConstruction w' = isBlocklistUnderConstruction w \<Longrightarrow> startTime w' = startTime w \<Longrightarrow>
   build_state w' = build_state w"
  by (simp add: build_state_def isBlocklistFilterSetup_def)

lemma allowed_refl [simp]: "allowed a a"
  by (simp add: allowed_def)

text \<open>One step of a run without takeover: the invariant is kept and the step is lawful.\<close>

lemma step_lawful:
  assumes inv: "one_builder s" and nt: "\<not> takes_over s e"
  shows "one_builder (step s e) \<and>
         allowed (build_state (fst s)) (build_state (fst (step s e))) \<and>
         in_flight (snd (step s e)) \<le> 1 \<and>
         (build_state (fst s) = Ready \<longrightarrow> heap (fst (step s e)) = heap (fst s))"
proof (cases s)
  case (Pair w ts)
  have i1: "in_flight ts \<le> 1" and i2: "isBlocklistUnderConstruction w \<longleftrightarrow> in_flight ts = 1"
    and i3: "isBlocklistFilterSetup w \<longrightarrow> in_flight ts = 0"
    using inv Pair by (simp_all add: one_builder_def)
  show ?thesis
  proof (cases e)
    case (Call now h p)
    have st: "step s e = (fst (RethinkModule w now h p), ts @ [snd (RethinkModule w now h p)])"
      using Pair Call by (simp only: step_Call)
    consider (ready) "isBlocklistFilterSetup w"
      | (build) "\<not> isBlocklistFilterSetup w" "\<not> isBlocklistUnderConstruction w"
      | (wait) "\<not> isBlocklistFilterSetup w" "isBlocklistUnderConstruction w"
          "now - startTime w \<le> 2 * workerTimeout p"
      using nt Pair Call by force
    then show ?thesis
    proof cases
      case ready
      then show ?thesis using st Pair i1 i2 i3
        by (simp add: RethinkModule_ready one_builder_def)
    next
      case build
      have r: "RethinkModule w now h p =
          initBlocklistConstruction w h now (blocklistUrl p) (latestTimestamp p) (tdNodecount p) (tdParts p)"
        using build by (simp add: RethinkModule_def)
      obtain c d where k: "snd (RethinkModule w now h p) = Downloading h c d"
        using init_frame(3)[of w h now "blocklistUrl p" "latestTimestamp p" "tdNodecount p" "tdParts p"] r
        by auto
      have z: "in_flight ts = 0" using build(2) i1 i2 by arith
      have ns: "\<not> isBlocklistFilterSetup (fst (RethinkModule w now h p))"
        using build(1) setup_cong[of "fst (RethinkModule w now h p)" w] by (simp add: RethinkModule_frame)
      have fl: "isBlocklistUnderConstruction (fst (RethinkModule w now h p))"
        by (simp add: r init_frame)
      have "build_state w = Idle" using build by (simp add: build_state_def)
      moreover have "build_state (fst (RethinkModule w now h p)) = Building now"
        using ns fl by (simp add: build_state_def r init_frame)
      ultimately show ?thesis using st Pair k z ns fl
        by (simp add: one_builder_def allowed_def)
    next
      case wait
      have r: "RethinkModule w now h p = (w, wait_loop w p 0)"
        using wait by (rule RethinkModule_waiter)
      show ?thesis using st Pair i1 i2 i3 r wait_loop_not_downloading[of w p 0]
        by (simp add: one_builder_def)
    qed
  next
    case (Resume i)
    show ?thesis
    proof (cases "i < length ts")
      case False
      then have "step s e = s" using Pair Resume by (simp only: step_Resume if_False)
      then show ?thesis using inv Pair i1 by simp
    next
      case True
      have st: "step s e = (fst (resume w (ts ! i)), ts[i := snd (resume w (ts ! i))])"
        using Pair Resume True by (simp only: step_Resume if_True)
      show ?thesis
      proof (cases "ts ! i")
        case (Sleeping p n)
        have "in_flight (ts[i := wait_loop w p (n + 50)]) = in_flight ts"
          using in_flight_same[OF True, of "wait_loop w p (n + 50)"] Sleeping
          by (simp add: wait_loop_not_downloading)
        then show ?thesis using st Pair Sleeping i1 i2 i3 by (simp add: one_builder_def)
      next
        case (Returned r)
        have "ts[i := Returned r] = ts" using Returned True by (metis list_update_id)
        then show ?thesis using st Pair Returned i1 i2 i3 by (simp add: one_builder_def)
      next
        case (Downloading h c d)
        have one: "in_flight ts = 1"
          using in_flight_update[OF True, of "Returned undefined"] Downloading i1 by simp
        then have fl: "isBlocklistUnderConstruction w" and ns: "\<not> isBlocklistFilterSetup w"
          using i2 i3 by auto
        obtain r where r: "snd (initBlocklistConstruction_settled w h c d) = Returned r"
          using settled_returns by blast
        have zero: "in_flight (ts[i := Returned r]) = 0"
          using in_flight_update[OF True, of "Returned r"] Downloading one by simp
        have before: "build_state w = Building (startTime w)"
          using fl ns by (simp add: build_state_def)
        have after: "\<not> isBlocklistUnderConstruction (fst (initBlocklistConstruction_settled w h c d))"
          by (cases rule: settled_cases[of w h c d]) (simp_all add: catch_frame)
        then have "build_state (fst (initBlocklistConstruction_settled w h c d)) = Ready
            \<or> build_state (fst (initBlocklistConstruction_settled w h c d)) = Idle"
          by (simp add: build_state_def)
        then have al: "allowed (build_state w) (build_state (fst (initBlocklistConstruction_settled w h c d)))"
          using before by (auto simp: allowed_def)
        show ?thesis
          using st Pair Downloading r zero after al before by (simp add: one_builder_def)
      qed
    qed
  qed
qed

lemma run_lawful:
  "one_builder s \<Longrightarrow> no_takeover s es \<Longrightarrow> lawful s es"
proof (induction es arbitrary: s)
  case Nil
  show ?case by simp
next
  case (Cons e es)
  from Cons.prems have nt: "\<not> takes_over s e" and rest: "no_takeover (step s e) es" by simp_all
  from step_lawful[OF Cons.prems(1) nt] Cons.IH[OF _ rest] show ?case by simp
qed

lemma build_state_Ready: "build_state w = Ready \<longleftrightarrow> isBlocklistFilterSetup w"
  by (simp add: build_state_def)

text \<open>
  Claim C6, as amended. Take any run of calls on a new wrapper, each call running from
  suspension to suspension, in which no call takes over a build in progress as stale.
  Then every step moves the build state along \<open>Idle\<close> to \<open>Building\<close>, \<open>Building\<close> to
  \<open>Ready\<close> or \<open>Building\<close> to \<open>Idle\<close>, or leaves it as it is; at every point at most one
  builder is in flight; and once the state is \<open>Ready\<close> no step changes the filter. In
  every run, with or without takeover, \<open>Ready\<close> is never left.
\<close>

theorem transitions_without_takeover:
  "(no_takeover (constructor, []) es \<longrightarrow> lawful (constructor, []) es) \<and>
   (build_state (fst s) = Ready \<longrightarrow> build_state (fst (exec s es')) = Ready)"
proof -
  have "one_builder (constructor, [])"
    by (simp add: one_builder_def in_flight_def constructor_def isBlocklistFilterSetup_def
        new_BlocklistFilter_def)
  then have a: "no_takeover (constructor, []) es \<longrightarrow> lawful (constructor, []) es"
    using run_lawful by blast
  have b: "build_state (fst s) = Ready \<longrightarrow> build_state (fst (exec s es')) = Ready"
    by (simp add: build_state_Ready exec_setup)
  show ?thesis using a b by (rule conjI)
qed

lemmas law_defs = build_state_def in_flight_def allowed_def host_up2_def host_throws_def

theorem transitions_without_takeover_witness:
  "no_takeover (constructor, []) [Call 0 host_up param0, Call 5 host_down param0, Resume 1, Resume 0] \<and>
   lawful (constructor, []) [Call 0 host_up param0, Call 5 host_down param0, Resume 1, Resume 0] \<and>
   build_state (fst (exec (constructor, [])
      [Call 0 host_up param0, Call 5 host_down param0, Resume 1, Resume 0])) = Ready \<and>
   build_state (fst (exec (exec (constructor, [])
      [Call 0 host_up param0, Call 5 host_down param0, Resume 1, Resume 0])
      [Call 99 host_down param0, Resume 1])) = Ready"
proof -
  have nt: "no_takeover (constructor, [])
      [Call 0 host_up param0, Call 5 host_down param0, Resume 1, Resume 0]"
    by (simp add: run_defs)
  have rd: "build_state (fst (exec (constructor, [])
      [Call 0 host_up param0, Call 5 host_down param0, Resume 1, Resume 0])) = Ready"
    by (simp add: run_defs law_defs)
  from nt rd transitions_without_takeover[where es =
      "[Call 0 host_up param0, Call 5 host_down param0, Resume 1, Resume 0]"
      and s = "exec (constructor, [])
      [Call 0 host_up param0, Call 5 host_down param0, Resume 1, Resume 0]"
      and es' = "[Call 99 host_down param0, Resume 1]"]
  show ?thesis by blast
qed

text \<open>
  The claim as stated fails because of the takeover of claim C4. With
  \<open>workerTimeout = 10\<close>, a call at time \<open>21\<close> takes over the build started at time \<open>0\<close>:
  two builders are in flight. When the second fails first, the state is \<open>Idle\<close> while
  the first is still in flight, and the success of the first then moves the state from
  \<open>Idle\<close> to \<open>Ready\<close> directly. When both succeed, the second loads the filter again
  although the state is \<open>Ready\<close>.
\<close>

theorem stale_takeover_counterexample:
  "in_flight (snd (exec (constructor, []) [Call 0 host_up param0, Call 21 host_down param0])) = 2 \<and>
   build_state (fst (exec (constructor, [])
      [Call 0 host_up param0, Call 21 host_down param0, Resume 1])) = Idle \<and>
   build_state (fst (exec (constructor, [])
      [Call 0 host_up param0, Call 21 host_down param0, Resume 1, Resume 0])) = Ready \<and>
   build_state (fst (exec (constructor, [])
      [Call 0 host_up param0, Call 21 host_up2 param0, Resume 0])) = Ready \<and>
   bf_t (heap (fst (exec (constructor, [])
      [Call 0 host_up param0, Call 21 host_up2 param0, Resume 0])) 0) = Some (Tags 1) \<and>
   bf_t (heap (fst (exec (constructor, [])
      [Call 0 host_up param0, Call 21 host_up2 param0, Resume 0, Resume 1])) 0) = Some (Tags 2)"
  by (simp add: run_defs law_defs)

end
